theory Spec2Isabelle
  imports Main
begin

unbundle bit_operations_syntax

section \<open>JSON values and Python strings\<close>

text \<open>
  A JSON value as Python's \<open>json\<close> module represents it: \<open>None\<close>, \<open>bool\<close>, \<open>int\<close>,
  \<open>str\<close>, \<open>list\<close> and \<open>dict\<close>. A \<open>dict\<close> keeps its insertion order, so it is an
  association list. Strings are lists of code points below 256; numbers are integers
  (number literals with a fraction or an exponent are outside this fragment).
\<close>

datatype json =
    JNull
  | JBool bool
  | JInt int
  | JStr string
  | JArr "json list"
  | JObj "(string \<times> json) list"

type_synonym bytes = "nat list"

definition dict_get :: "(string \<times> json) list \<Rightarrow> string \<Rightarrow> json option" where
  "dict_get kvs k = map_of kvs k"

fun dict_set :: "(string \<times> json) list \<Rightarrow> string \<Rightarrow> json \<Rightarrow> (string \<times> json) list" where
  "dict_set [] k v = [(k, v)]"
| "dict_set ((k', v') # kvs) k v = (if k' = k then (k, v) # kvs else (k', v') # dict_set kvs k v)"

definition dict_del :: "(string \<times> json) list \<Rightarrow> string \<Rightarrow> (string \<times> json) list" where
  "dict_del kvs k = filter (\<lambda>kv. fst kv \<noteq> k) kvs"

definition ord :: "char \<Rightarrow> nat" where
  "ord c = of_char c"

definition starts_with :: "string \<Rightarrow> string \<Rightarrow> bool" where
  "starts_with s p = (take (length p) s = p)"

text \<open>\<open>str.split(sep)\<close> for a one-character separator: never an empty list.\<close>

fun split_str :: "char \<Rightarrow> string \<Rightarrow> string list" where
  "split_str d [] = [[]]"
| "split_str d (c # cs) =
     (if c = d then [] # split_str d cs
      else (case split_str d cs of [] \<Rightarrow> [[c]] | p # ps \<Rightarrow> (c # p) # ps))"

fun join_str :: "string \<Rightarrow> string list \<Rightarrow> string" where
  "join_str sep [] = []"
| "join_str sep [x] = x"
| "join_str sep (x # y # r) = x @ sep @ join_str sep (y # r)"

text \<open>\<open>str.replace(old, new)\<close>: leftmost, non-overlapping occurrences.\<close>

fun replace_from :: "string \<Rightarrow> string \<Rightarrow> string \<Rightarrow> string" where
  "replace_from old new [] = []"
| "replace_from old new (c # cs) =
     (if take (length old) (c # cs) = old
      then new @ replace_from old new (drop (length old - 1) cs)
      else c # replace_from old new cs)"

definition str_replace :: "string \<Rightarrow> string \<Rightarrow> string \<Rightarrow> string" where
  "str_replace old new s =
     (if old = [] then new @ concat (map (\<lambda>c. c # new) s) else replace_from old new s)"

definition is_ascii :: "string \<Rightarrow> bool" where
  "is_ascii s = list_all (\<lambda>c. ord c < 128) s"

definition ascii_lower :: "string \<Rightarrow> string" where
  "ascii_lower s = map (\<lambda>c. if 65 \<le> ord c \<and> ord c \<le> 90 then char_of (ord c + 32) else c) s"

text \<open>UTF-8 of a string of code points below 256.\<close>

definition utf8 :: "string \<Rightarrow> bytes" where
  "utf8 s = concat (map (\<lambda>c. if ord c < 128 then [ord c]
                               else [192 + ord c div 64, 128 + ord c mod 64]) s)"

section \<open>Serialisation: \<open>json.dumps\<close> and JCS\<close>

definition hexdigit :: "nat \<Rightarrow> char" where
  "hexdigit n = ''0123456789abcdef'' ! (n mod 16)"

definition uescape :: "char \<Rightarrow> string" where
  "uescape c = [CHR 0x5C, CHR ''u'', CHR ''0'', CHR ''0'', hexdigit (ord c div 16), hexdigit (ord c)]"

definition short_escape :: "char \<Rightarrow> string option" where
  "short_escape c =
     (if c = CHR 0x22 then Some [CHR 0x5C, CHR 0x22]
      else if c = CHR 0x5C then Some [CHR 0x5C, CHR 0x5C]
      else if c = CHR 0x0A then Some [CHR 0x5C, CHR ''n'']
      else if c = CHR 0x0D then Some [CHR 0x5C, CHR ''r'']
      else if c = CHR 0x09 then Some [CHR 0x5C, CHR ''t'']
      else if c = CHR 0x08 then Some [CHR 0x5C, CHR ''b'']
      else if c = CHR 0x0C then Some [CHR 0x5C, CHR ''f'']
      else None)"

text \<open>\<open>json.dumps\<close> with \<open>ensure_ascii\<close>: everything outside space..tilde is escaped.\<close>

definition dumps_char :: "char \<Rightarrow> string" where
  "dumps_char c =
     (case short_escape c of Some e \<Rightarrow> e
      | None \<Rightarrow> if ord c < 32 \<or> 126 < ord c then uescape c else [c])"

text \<open>JCS (RFC 8785): only the control characters, the quote and the backslash are escaped.\<close>

definition jcs_char :: "char \<Rightarrow> string" where
  "jcs_char c =
     (case short_escape c of Some e \<Rightarrow> e
      | None \<Rightarrow> if ord c < 32 then uescape c else [c])"

definition dumps_str :: "string \<Rightarrow> string" where
  "dumps_str s = [CHR 0x22] @ concat (map dumps_char s) @ [CHR 0x22]"

definition jcs_str :: "string \<Rightarrow> string" where
  "jcs_str s = [CHR 0x22] @ concat (map jcs_char s) @ [CHR 0x22]"

fun show_nat :: "nat \<Rightarrow> string" where
  "show_nat n = (if n < 10 then [char_of (48 + n)] else show_nat (n div 10) @ [char_of (48 + n mod 10)])"

declare show_nat.simps [simp del]

definition show_int :: "int \<Rightarrow> string" where
  "show_int i = (if i < 0 then CHR ''-'' # show_nat (nat (- i)) else show_nat (nat i))"

primrec json_dumps :: "json \<Rightarrow> string" where
  "json_dumps JNull = ''null''"
| "json_dumps (JBool b) = (if b then ''true'' else ''false'')"
| "json_dumps (JInt i) = show_int i"
| "json_dumps (JStr s) = dumps_str s"
| "json_dumps (JArr xs) = ''['' @ join_str '', '' (map json_dumps xs) @ '']''"
| "json_dumps (JObj kvs) =
     ''{'' @ join_str '', '' (map (\<lambda>kv. dumps_str (fst kv) @ '': '' @ snd kv)
                                 (map (map_prod id json_dumps) kvs)) @ ''}''"

text \<open>Lexicographic order on code points, the order JCS sorts member names in.\<close>

fun str_le :: "string \<Rightarrow> string \<Rightarrow> bool" where
  "str_le [] _ = True"
| "str_le (_ # _) [] = False"
| "str_le (a # as) (b # bs) = (ord a < ord b \<or> (a = b \<and> str_le as bs))"

fun insert_member :: "string \<times> 'a \<Rightarrow> (string \<times> 'a) list \<Rightarrow> (string \<times> 'a) list" where
  "insert_member kv [] = [kv]"
| "insert_member kv (x # xs) =
     (if str_le (fst kv) (fst x) then kv # x # xs else x # insert_member kv xs)"

definition sort_members :: "(string \<times> 'a) list \<Rightarrow> (string \<times> 'a) list" where
  "sort_members kvs = foldr insert_member kvs []"

primrec canonicalize :: "json \<Rightarrow> string" where
  "canonicalize JNull = ''null''"
| "canonicalize (JBool b) = (if b then ''true'' else ''false'')"
| "canonicalize (JInt i) =
     (if - 9223372036854775808 < i \<and> i < 9223372036854775808 then show_int i
      else jcs_str (show_int i))"
| "canonicalize (JStr s) = jcs_str s"
| "canonicalize (JArr xs) = ''['' @ join_str '','' (map canonicalize xs) @ '']''"
| "canonicalize (JObj kvs) =
     ''{'' @ join_str '','' (map (\<lambda>kv. jcs_str (fst kv) @ '':'' @ snd kv)
                                (sort_members (map (map_prod id canonicalize) kvs))) @ ''}''"

section \<open>Parsing: \<open>json.loads\<close>\<close>

text \<open>
  The parser says \<open>Malformed\<close> where \<open>json.loads\<close> raises \<open>JSONDecodeError\<close>. Where the
  text leaves the fragment modelled here (a number with a fraction or an exponent,
  \<open>NaN\<close>, \<open>Infinity\<close>, an integer of more than 4300 digits, a \<open>\u\<close> escape of a code
  point from 256 on) it says \<open>Unmodelled\<close>, and nothing is claimed about the code on such
  a text. \<open>NoFuel\<close> is the recursion running out of fuel, which is shown not to happen
  with the fuel \<open>json_loads\<close> gives.
\<close>

datatype parse_error = Malformed | Unmodelled | NoFuel

definition is_ws :: "char \<Rightarrow> bool" where
  "is_ws c = (c = CHR 0x20 \<or> c = CHR 0x09 \<or> c = CHR 0x0A \<or> c = CHR 0x0D)"

definition skip_ws :: "string \<Rightarrow> string" where
  "skip_ws s = dropWhile is_ws s"

definition is_digit :: "char \<Rightarrow> bool" where
  "is_digit c = (48 \<le> ord c \<and> ord c \<le> 57)"

definition hexval :: "char \<Rightarrow> nat option" where
  "hexval c =
     (if is_digit c then Some (ord c - 48)
      else if 97 \<le> ord c \<and> ord c \<le> 102 then Some (ord c - 87)
      else if 65 \<le> ord c \<and> ord c \<le> 70 then Some (ord c - 55)
      else None)"

text \<open>The character of a \<open>\uXXXX\<close> escape.\<close>

definition uchar :: "char \<Rightarrow> char \<Rightarrow> char \<Rightarrow> char \<Rightarrow> parse_error + char" where
  "uchar h1 h2 h3 h4 =
     (case (hexval h1, hexval h2, hexval h3, hexval h4) of
        (Some a, Some b, Some c, Some d) \<Rightarrow>
          if a = 0 \<and> b = 0 then Inr (char_of (16 * c + d)) else Inl Unmodelled
      | _ \<Rightarrow> Inl Malformed)"

definition unescape :: "char \<Rightarrow> char option" where
  "unescape e =
     (if e = CHR 0x22 \<or> e = CHR 0x5C \<or> e = CHR ''/'' then Some e
      else if e = CHR ''n'' then Some (CHR 0x0A)
      else if e = CHR ''r'' then Some (CHR 0x0D)
      else if e = CHR ''t'' then Some (CHR 0x09)
      else if e = CHR ''b'' then Some (CHR 0x08)
      else if e = CHR ''f'' then Some (CHR 0x0C)
      else None)"

definition cons_char ::
  "char \<Rightarrow> parse_error + (string \<times> string) \<Rightarrow> parse_error + (string \<times> string)" where
  "cons_char c r = (case r of Inl e \<Rightarrow> Inl e | Inr (s, rest) \<Rightarrow> Inr (c # s, rest))"

text \<open>The body of a string literal after its opening quote, and the text after its closing quote.\<close>

fun parse_str_body :: "string \<Rightarrow> parse_error + (string \<times> string)" where
  "parse_str_body [] = Inl Malformed"
| "parse_str_body (c # cs) =
     (if c = CHR 0x22 then Inr ([], cs)
      else if c = CHR 0x5C then
        (case cs of
           [] \<Rightarrow> Inl Malformed
         | e # r \<Rightarrow>
             if e = CHR ''u'' then
               (if length r < 4 then Inl Malformed
                else (case uchar (r ! 0) (r ! 1) (r ! 2) (r ! 3) of
                        Inl err \<Rightarrow> Inl err
                      | Inr x \<Rightarrow> cons_char x (parse_str_body (drop 4 r))))
             else (case unescape e of
                     None \<Rightarrow> Inl Malformed
                   | Some x \<Rightarrow> cons_char x (parse_str_body r)))
      else if ord c < 32 then Inl Malformed
      else cons_char c (parse_str_body cs))"

definition digits_val :: "string \<Rightarrow> nat" where
  "digits_val ds = foldl (\<lambda>a c. 10 * a + (ord c - 48)) 0 ds"

text \<open>
  A number: \<open>-?(0|[1-9][0-9]*)\<close>, then a fraction \<open>.[0-9]+\<close> or an exponent
  \<open>[eE][-+]?[0-9]+\<close> if there is one, which makes it a \<open>float\<close>.
\<close>

definition starts_float :: "string \<Rightarrow> bool" where
  "starts_float rest =
     (case rest of
        c # d # r \<Rightarrow>
          (c = CHR ''.'' \<and> is_digit d) \<or>
          ((c = CHR ''e'' \<or> c = CHR ''E'') \<and>
           (is_digit d \<or> ((d = CHR ''+'' \<or> d = CHR ''-'') \<and> r \<noteq> [] \<and> is_digit (hd r))))
      | _ \<Rightarrow> False)"

definition parse_number :: "string \<Rightarrow> parse_error + (json \<times> string)" where
  "parse_number s =
     (let neg = (s \<noteq> [] \<and> hd s = CHR ''-'');
          s1 = (if neg then tl s else s);
          ds = (if s1 \<noteq> [] \<and> hd s1 = CHR ''0'' then ''0'' else takeWhile is_digit s1);
          rest = drop (length ds) s1
      in if ds = [] then
           (if starts_with s ''NaN'' \<or> starts_with s ''Infinity'' \<or> starts_with s ''-Infinity''
            then Inl Unmodelled else Inl Malformed)
         else if starts_float rest \<or> 4300 < length ds then Inl Unmodelled
         else Inr (JInt (if neg then - int (digits_val ds) else int (digits_val ds)), rest))"

fun parse_value :: "nat \<Rightarrow> string \<Rightarrow> parse_error + (json \<times> string)"
  and parse_elems :: "nat \<Rightarrow> string \<Rightarrow> json list \<Rightarrow> parse_error + (json \<times> string)"
  and parse_members ::
    "nat \<Rightarrow> string \<Rightarrow> (string \<times> json) list \<Rightarrow> parse_error + (json \<times> string)"
where
  "parse_value 0 s = Inl NoFuel"
| "parse_value (Suc n) s =
     (case skip_ws s of
        [] \<Rightarrow> Inl Malformed
      | c # cs \<Rightarrow>
          if c = CHR 0x22 then
            (case parse_str_body cs of Inl e \<Rightarrow> Inl e | Inr (str, r) \<Rightarrow> Inr (JStr str, r))
          else if c = CHR ''{'' then
            (if starts_with (skip_ws cs) ''}'' then Inr (JObj [], tl (skip_ws cs))
             else parse_members n cs [])
          else if c = CHR ''['' then
            (if starts_with (skip_ws cs) '']'' then Inr (JArr [], tl (skip_ws cs))
             else parse_elems n cs [])
          else if starts_with (c # cs) ''null'' then Inr (JNull, drop 4 (c # cs))
          else if starts_with (c # cs) ''true'' then Inr (JBool True, drop 4 (c # cs))
          else if starts_with (c # cs) ''false'' then Inr (JBool False, drop 5 (c # cs))
          else parse_number (c # cs))"
| "parse_elems 0 s acc = Inl NoFuel"
| "parse_elems (Suc n) s acc =
     (case parse_value n s of
        Inl e \<Rightarrow> Inl e
      | Inr (v, r) \<Rightarrow>
          (case skip_ws r of
             [] \<Rightarrow> Inl Malformed
           | c # r' \<Rightarrow>
               if c = CHR '','' then parse_elems n r' (acc @ [v])
               else if c = CHR '']'' then Inr (JArr (acc @ [v]), r')
               else Inl Malformed))"
| "parse_members 0 s acc = Inl NoFuel"
| "parse_members (Suc n) s acc =
     (case skip_ws s of
        [] \<Rightarrow> Inl Malformed
      | q # r \<Rightarrow>
          if q \<noteq> CHR 0x22 then Inl Malformed
          else (case parse_str_body r of
                  Inl e \<Rightarrow> Inl e
                | Inr (k, r1) \<Rightarrow>
                    (case skip_ws r1 of
                       [] \<Rightarrow> Inl Malformed
                     | c # r2 \<Rightarrow>
                         if c \<noteq> CHR '':'' then Inl Malformed
                         else (case parse_value n r2 of
                                 Inl e \<Rightarrow> Inl e
                               | Inr (v, r3) \<Rightarrow>
                                   (case skip_ws r3 of
                                      [] \<Rightarrow> Inl Malformed
                                    | d # r4 \<Rightarrow>
                                        if d = CHR '','' then parse_members n r4 (dict_set acc k v)
                                        else if d = CHR ''}'' then Inr (JObj (dict_set acc k v), r4)
                                        else Inl Malformed)))))"

text \<open>
  \<open>json.loads\<close>: one value, then only white space. Every call of the parser consumes a
  character at least every second step, so twice the length of the text is fuel enough.
\<close>

definition json_loads :: "string \<Rightarrow> parse_error + json" where
  "json_loads s =
     (case parse_value (2 * length s + 2) s of
        Inl e \<Rightarrow> Inl e
      | Inr (v, r) \<Rightarrow> if skip_ws r = [] then Inr v else Inl Malformed)"

section \<open>Hashing and multiformats\<close>

text \<open>SHA-256 (FIPS 180-4) on 32-bit words, written as naturals with the wrap-around explicit.\<close>

definition add32 :: "nat \<Rightarrow> nat \<Rightarrow> nat" where
  "add32 a b = (a + b) mod 4294967296"

definition rotr :: "nat \<Rightarrow> nat \<Rightarrow> nat" where
  "rotr n x = x div 2 ^ n + (x mod 2 ^ n) * 2 ^ (32 - n)"

definition K256 :: "nat list" where
  "K256 = [
   1116352408, 1899447441, 3049323471, 3921009573, 961987163, 1508970993, 2453635748, 2870763221,
   3624381080, 310598401, 607225278, 1426881987, 1925078388, 2162078206, 2614888103, 3248222580,
   3835390401, 4022224774, 264347078, 604807628, 770255983, 1249150122, 1555081692, 1996064986,
   2554220882, 2821834349, 2952996808, 3210313671, 3336571891, 3584528711, 113926993, 338241895,
   666307205, 773529912, 1294757372, 1396182291, 1695183700, 1986661051, 2177026350, 2456956037,
   2730485921, 2820302411, 3259730800, 3345764771, 3516065817, 3600352804, 4094571909, 275423344,
   430227734, 506948616, 659060556, 883997877, 958139571, 1322822218, 1537002063, 1747873779,
   1955562222, 2024104815, 2227730452, 2361852424, 2428436474, 2756734187, 3204031479, 3329325298]"

type_synonym sha_state = "nat \<times> nat \<times> nat \<times> nat \<times> nat \<times> nat \<times> nat \<times> nat"

definition H256 :: "sha_state" where
  "H256 = (1779033703, 3144134277, 1013904242, 2773480762,
           1359893119, 2600822924, 528734635, 1541459225)"

definition ssig0 :: "nat \<Rightarrow> nat" where
  "ssig0 x = rotr 7 x XOR rotr 18 x XOR x div 2 ^ 3"

definition ssig1 :: "nat \<Rightarrow> nat" where
  "ssig1 x = rotr 17 x XOR rotr 19 x XOR x div 2 ^ 10"

definition bsig0 :: "nat \<Rightarrow> nat" where
  "bsig0 x = rotr 2 x XOR rotr 13 x XOR rotr 22 x"

definition bsig1 :: "nat \<Rightarrow> nat" where
  "bsig1 x = rotr 6 x XOR rotr 11 x XOR rotr 25 x"

definition ch :: "nat \<Rightarrow> nat \<Rightarrow> nat \<Rightarrow> nat" where
  "ch x y z = (x AND y) XOR ((4294967295 - x) AND z)"

definition maj :: "nat \<Rightarrow> nat \<Rightarrow> nat \<Rightarrow> nat" where
  "maj x y z = (x AND y) XOR (x AND z) XOR (y AND z)"

text \<open>Big-endian words of a block.\<close>

fun be32 :: "bytes \<Rightarrow> nat list" where
  "be32 (a # b # c # d # r) = (a * 16777216 + b * 65536 + c * 256 + d) # be32 r"
| "be32 _ = []"

text \<open>The message schedule, newest word first.\<close>

fun sched :: "nat \<Rightarrow> nat list \<Rightarrow> nat list" where
  "sched 0 w = w"
| "sched (Suc n) w =
     sched n (add32 (add32 (add32 (ssig1 (w ! 1)) (w ! 6)) (ssig0 (w ! 14))) (w ! 15) # w)"

fun round_out :: "nat \<Rightarrow> nat \<Rightarrow> sha_state \<Rightarrow> sha_state" where
  "round_out t1 t2 (a, b, c, d, e, f, g, h) = (add32 t1 t2, a, b, c, add32 d t1, e, f, g)"

fun round_step :: "sha_state \<Rightarrow> nat \<times> nat \<Rightarrow> sha_state" where
  "round_step (a, b, c, d, e, f, g, h) (k, w) =
     round_out (add32 (add32 (add32 (add32 h (bsig1 e)) (ch e f g)) k) w)
       (add32 (bsig0 a) (maj a b c)) (a, b, c, d, e, f, g, h)"

fun add_state :: "sha_state \<Rightarrow> sha_state \<Rightarrow> sha_state" where
  "add_state (a, b, c, d, e, f, g, h) (a', b', c', d', e', f', g', h') =
     (add32 a a', add32 b b', add32 c c', add32 d d',
      add32 e e', add32 f f', add32 g g', add32 h h')"

definition compress :: "sha_state \<Rightarrow> bytes \<Rightarrow> sha_state" where
  "compress s blk = add_state s (foldl round_step s (zip K256 (rev (sched 48 (rev (be32 blk))))))"

fun blocks :: "nat \<Rightarrow> sha_state \<Rightarrow> bytes \<Rightarrow> sha_state" where
  "blocks 0 s bs = s"
| "blocks (Suc n) s bs = blocks n (compress s (take 64 bs)) (drop 64 bs)"

definition be_bytes :: "nat \<Rightarrow> nat \<Rightarrow> bytes" where
  "be_bytes k n = map (\<lambda>i. (n div 256 ^ i) mod 256) (rev [0..<k])"

definition pad :: "bytes \<Rightarrow> bytes" where
  "pad m = m @ [128] @ replicate ((119 - length m mod 64) mod 64) 0 @ be_bytes 8 (8 * length m)"

fun state_bytes :: "sha_state \<Rightarrow> bytes" where
  "state_bytes (a, b, c, d, e, f, g, h) = concat (map (be_bytes 4) [a, b, c, d, e, f, g, h])"

definition sha256 :: "bytes \<Rightarrow> bytes" where
  "sha256 m = state_bytes (blocks (length (pad m) div 64) H256 (pad m))"

text \<open>\<open>base64.b32encode\<close> (RFC 4648): five bits a character, padded with \<open>=\<close> to a multiple of eight.\<close>

definition bits8 :: "nat \<Rightarrow> nat list" where
  "bits8 n = map (\<lambda>i. (n div 2 ^ i) mod 2) (rev [0..<8])"

definition bits_val :: "nat list \<Rightarrow> nat" where
  "bits_val bs = foldl (\<lambda>a b. 2 * a + b) 0 bs"

fun groups5 :: "nat list \<Rightarrow> nat list" where
  "groups5 (a # b # c # d # e # r) = bits_val [a, b, c, d, e] # groups5 r"
| "groups5 [] = []"
| "groups5 r = [bits_val (take 5 (r @ [0, 0, 0, 0]))]"

definition b32char :: "nat \<Rightarrow> char" where
  "b32char n = ''ABCDEFGHIJKLMNOPQRSTUVWXYZ234567'' ! (n mod 32)"

definition b32encode :: "bytes \<Rightarrow> string" where
  "b32encode bs =
     (let cs = map b32char (groups5 (concat (map bits8 bs)))
      in cs @ replicate ((8 - length cs mod 8) mod 8) (CHR ''=''))"

text \<open>Multibase \<open>base58btc\<close> (prefix \<open>z\<close>) of a multihash \<open>sha2-256\<close> (code 0x12, then the length).\<close>

definition bytes_val :: "bytes \<Rightarrow> nat" where
  "bytes_val bs = foldl (\<lambda>a b. 256 * a + b) 0 bs"

definition b58char :: "nat \<Rightarrow> char" where
  "b58char n = ''123456789ABCDEFGHJKLMNPQRSTUVWXYZabcdefghijkmnopqrstuvwxyz'' ! (n mod 58)"

fun b58digits :: "nat \<Rightarrow> string" where
  "b58digits n = (if n = 0 then [] else b58digits (n div 58) @ [b58char (n mod 58)])"

declare b58digits.simps [simp del]

definition base58btc :: "bytes \<Rightarrow> string" where
  "base58btc bs =
     replicate (length (takeWhile (\<lambda>b. b = 0) bs)) (CHR ''1'') @ b58digits (bytes_val bs)"

definition multihash_wrap :: "bytes \<Rightarrow> bytes" where
  "multihash_wrap digest = [18, length digest] @ digest"

definition format_hash :: "bytes \<Rightarrow> string" where
  "format_hash digest = CHR ''z'' # base58btc (multihash_wrap digest)"

section \<open>Errors\<close>

text \<open>
  Every exception the code can raise is a value: \<open>RuntimeError\<close> and \<open>ValueError\<close> with
  their messages, and the exceptions raised by Python itself or by a library
  (\<open>LibraryError\<close> for the exceptions of \<open>jsonpatch\<close>, \<open>multiformats\<close> and \<open>aries_askar\<close>).
  \<open>NotModelled\<close> is not an exception: it marks a text that leaves the fragment of JSON
  modelled here, on which nothing is claimed.
\<close>

datatype error =
    RuntimeError string
  | ValueError string
  | JSONDecodeError
  | AttributeError
  | KeyError
  | TypeError
  | UnicodeError
  | LibraryError
  | NotModelled

section \<open>SCID derivation: \<open>update_scid\<close>\<close>

definition PLACEHOLDER :: string where
  "PLACEHOLDER = ''{{SCID}}''"

text \<open>
  \<open>str.isdigit\<close> on a code point below 256: the ASCII digits and the superscripts
  two, three and one, on which \<open>int\<close> raises \<open>ValueError\<close>.
\<close>

definition py_isdigit :: "char \<Rightarrow> bool" where
  "py_isdigit c = (is_digit c \<or> ord c = 178 \<or> ord c = 179 \<or> ord c = 185)"

text \<open>The version read from the first character of the current SCID (\<open>scid_ver is None\<close>).\<close>

definition scid_version :: "string \<Rightarrow> error + int" where
  "scid_version old_scid =
     (case old_scid of
        [] \<Rightarrow> Inr 1
      | c # _ \<Rightarrow>
          if py_isdigit c
          then (if is_digit c then Inr (int (ord c - 48))
                else Inl (ValueError (''invalid literal for int() with base 10: '' @
                                      [CHR 0x27, c, CHR 0x27])))
          else Inr 1)"

text \<open>What a call of \<open>json.loads\<close> gives the code.\<close>

definition loads_result :: "parse_error + json \<Rightarrow> error + json" where
  "loads_result r =
     (case r of
        Inr v \<Rightarrow> Inr v
      | Inl Malformed \<Rightarrow> Inl JSONDecodeError
      | Inl _ \<Rightarrow> Inl NotModelled)"

definition update_scid :: "json \<Rightarrow> int option \<Rightarrow> error + (string \<times> json)" where
  "update_scid document scid_ver =
     (case (case document of
              JStr s \<Rightarrow> loads_result (json_loads s)
            | JObj kvs \<Rightarrow> Inr (JObj kvs)
            | JArr xs \<Rightarrow> Inr (JArr xs)
            | _ \<Rightarrow> Inl AttributeError) of
        Inl e \<Rightarrow> Inl e
      | Inr (JObj kvs) \<Rightarrow>
          (case dict_get kvs ''id'' of
             Some (JStr doc_id) \<Rightarrow>
               (let id_parts = split_str (CHR '':'') doc_id in
                if take 1 id_parts \<noteq> [''did''] \<or> length id_parts < 4 then Inl (RuntimeError ''Invalid document ID'')
                else
                  (case (case scid_ver of None \<Rightarrow> scid_version (last id_parts) | Some v \<Rightarrow> Inr v) of
                     Inl e \<Rightarrow> Inl e
                   | Inr ver \<Rightarrow>
                       if ver \<noteq> 1 then Inl (RuntimeError ''Only SCID version 1 is supported'')
                       else
                         (let plc_id = join_str '':'' (butlast id_parts @ [PLACEHOLDER]);
                              canon = canonicalize (JObj kvs)
                          in if \<not> is_ascii canon \<or> \<not> is_ascii (str_replace doc_id plc_id canon)
                             then Inl UnicodeError
                             else
                               (let norm = utf8 (str_replace doc_id plc_id canon);
                                    scid = take 24 (ascii_lower (b32encode (sha256 norm)));
                                    upd_id = join_str '':'' (butlast id_parts @ [scid])
                                in (case loads_result
                                          (json_loads (str_replace doc_id upd_id (json_dumps (JObj kvs)))) of
                                      Inl e \<Rightarrow> Inl e
                                    | Inr r \<Rightarrow> Inr (upd_id, r))))))
           | _ \<Rightarrow> Inl (RuntimeError ''Missing document ID''))
      | Inr _ \<Rightarrow> Inl AttributeError)"

section \<open>The SCID derivation of the specification\<close>

text \<open>
  The derivation as the specification words it, on the document and not on its text:
  the id with its final colon segment replaced, that replacement made in every string
  of the document, and the SCID of the document with the placeholder.
\<close>

definition with_last_segment :: "string \<Rightarrow> string \<Rightarrow> string" where
  "with_last_segment doc_id segment =
     rev (dropWhile (\<lambda>c. c \<noteq> CHR '':'') (rev doc_id)) @ segment"

primrec subst_json :: "string \<Rightarrow> string \<Rightarrow> json \<Rightarrow> json" where
  "subst_json old new JNull = JNull"
| "subst_json old new (JBool b) = JBool b"
| "subst_json old new (JInt i) = JInt i"
| "subst_json old new (JStr s) = JStr (str_replace old new s)"
| "subst_json old new (JArr xs) = JArr (map (subst_json old new) xs)"
| "subst_json old new (JObj kvs) =
     JObj (map (\<lambda>kv. (str_replace old new (fst kv), snd kv))
             (map (map_prod id (subst_json old new)) kvs))"

definition spec_scid :: "json \<Rightarrow> string \<Rightarrow> string" where
  "spec_scid document doc_id =
     take 24 (ascii_lower (b32encode (sha256 (utf8 (canonicalize
       (subst_json doc_id (with_last_segment doc_id PLACEHOLDER) document))))))"

text \<open>
  The documents for which the derivation is shown to do this: every string is
  printable ASCII, every integer has at most 4300 digits (more and Python's conversion
  between \<open>int\<close> and \<open>str\<close> raises \<open>ValueError\<close>), no object has a key twice (it is a
  Python \<open>dict\<close>), and the id occurs in no key.
\<close>

definition printable :: "string \<Rightarrow> bool" where
  "printable s = list_all (\<lambda>c. 32 \<le> ord c \<and> ord c \<le> 126) s"

fun occurs :: "string \<Rightarrow> string \<Rightarrow> bool" where
  "occurs old [] = (old = [])"
| "occurs old (c # cs) = (take (length old) (c # cs) = old \<or> occurs old cs)"

primrec plain_json :: "string \<Rightarrow> json \<Rightarrow> bool" where
  "plain_json old JNull = True"
| "plain_json old (JBool b) = True"
| "plain_json old (JInt i) = (length (show_nat (nat \<bar>i\<bar>)) \<le> 4300)"
| "plain_json old (JStr s) = printable s"
| "plain_json old (JArr xs) = list_all (\<lambda>b. b) (map (plain_json old) xs)"
| "plain_json old (JObj kvs) =
     (distinct (map fst kvs) \<and>
      list_all (\<lambda>kv. printable (fst kv) \<and> \<not> occurs old (fst kv) \<and> snd kv)
        (map (map_prod id (plain_json old)) kvs))"

section \<open>Library functions\<close>

text \<open>
  The functions of \<open>jsonpatch\<close>, \<open>multiformats\<close> and \<open>aries_askar\<close> that the code calls
  are parameters: \<open>None\<close> is an exception raised by the library. Keys are byte strings.
\<close>

record lib =
  apply_patch :: "json \<Rightarrow> json \<Rightarrow> json option"
  multibase_decode :: "string \<Rightarrow> bytes option"
  multibase_encode :: "bytes \<Rightarrow> string"
  multicodec_unwrap :: "bytes \<Rightarrow> (string \<times> bytes) option"
  multicodec_wrap :: "string \<Rightarrow> bytes \<Rightarrow> bytes"
  from_public_bytes :: "bytes \<Rightarrow> bytes option"
  key_verify_signature :: "bytes \<Rightarrow> bytes \<Rightarrow> bytes \<Rightarrow> bool"
  sign_message :: "bytes \<Rightarrow> bytes \<Rightarrow> bytes"
  get_public_bytes :: "bytes \<Rightarrow> bytes"

section \<open>Log-line hash and proofs\<close>

definition METHOD :: string where
  "METHOD = ''webnext''"

definition HISTORY_PROTO :: string where
  "HISTORY_PROTO = ''history:1''"

definition BASE_PROTO :: string where
  "BASE_PROTO = ''did:'' @ METHOD @ '':1''"

definition log_line_hash :: "json \<Rightarrow> json \<Rightarrow> json \<Rightarrow> json \<Rightarrow> string" where
  "log_line_hash prev_hash version_id timestamp patch =
     format_hash (sha256 (utf8 (canonicalize (JArr [prev_hash, version_id, timestamp, patch]))))"

definition parse_verification_method ::
  "json \<Rightarrow> string \<Rightarrow> (string \<times> json) list \<Rightarrow> error + (string \<times> (string \<times> json) list)" where
  "parse_verification_method method doc_id method_dict =
     (case method of
        JObj m \<Rightarrow>
          (case dict_get m ''id'' of
             Some (JStr mid) \<Rightarrow>
               (let method_id = (if starts_with mid ''#'' then doc_id @ mid else mid)
                in if dict_get method_dict method_id \<noteq> None
                   then Inl (RuntimeError ''Invalid log: duplicate verification method ID'')
                   else Inr (method_id, dict_set method_dict method_id method))
           | _ \<Rightarrow> Inl (RuntimeError ''Invalid log: invalid verification method ID''))
      | _ \<Rightarrow> Inl (RuntimeError ''Invalid log: invalid verification methods''))"

text \<open>The bytes that are signed: the hash of the document, then the hash of the proof options.\<close>

definition sig_input :: "(string \<times> json) list \<Rightarrow> (string \<times> json) list \<Rightarrow> bytes" where
  "sig_input document options =
     sha256 (utf8 (canonicalize (JObj document))) @ sha256 (utf8 (canonicalize (JObj options)))"

text \<open>\<open>verify_proof\<close> returns nothing: \<open>None\<close> is a normal return, \<open>Some e\<close> the exception.\<close>

definition verify_proof ::
  "lib \<Rightarrow> (string \<times> json) list \<Rightarrow> (string \<times> json) list \<Rightarrow> json \<Rightarrow> error option" where
  "verify_proof L document proof method =
     (if dict_get proof ''type'' \<noteq> Some (JStr ''DataIntegrityProof'')
      then Some (RuntimeError ''Unsupported proof type'')
      else if dict_get proof ''proofPurpose'' \<noteq> Some (JStr ''authentication'')
      then Some (RuntimeError ''Expected authentication proof purpose'')
      else if dict_get proof ''cryptosuite'' \<noteq> Some (JStr ''eddsa-jcs-2022'')
      then Some (RuntimeError ''Unsupported cryptosuite'')
      else
        (case method of
           JObj m \<Rightarrow>
             (case dict_get m ''publicKeyMultibase'' of
                Some (JStr mb) \<Rightarrow>
                  (case multibase_decode L mb of
                     None \<Rightarrow> Some LibraryError
                   | Some key_mc \<Rightarrow>
                       (case multicodec_unwrap L key_mc of
                          None \<Rightarrow> Some LibraryError
                        | Some (codec, key_bytes) \<Rightarrow>
                            if codec \<noteq> ''ed25519-pub'' then Some (RuntimeError ''Unsupported key type'')
                            else
                              (case from_public_bytes L key_bytes of
                                 None \<Rightarrow> Some LibraryError
                               | Some key \<Rightarrow>
                                   if dict_get document ''proof'' = None then Some KeyError
                                   else
                                     (case dict_get proof ''proofValue'' of
                                        None \<Rightarrow> Some KeyError
                                      | Some (JStr pv) \<Rightarrow>
                                          (case multibase_decode L pv of
                                             None \<Rightarrow> Some LibraryError
                                           | Some signature \<Rightarrow>
                                               if key_verify_signature L key
                                                    (sig_input (dict_del document ''proof'')
                                                       (dict_del proof ''proofValue''))
                                                    signature
                                               then None
                                               else Some (RuntimeError ''Invalid proof signature''))
                                      | Some _ \<Rightarrow> Some LibraryError))))
              | _ \<Rightarrow> Some LibraryError)
         | _ \<Rightarrow> Some AttributeError))"

section \<open>Reading the log: \<open>load_log\<close>\<close>

text \<open>The loops over \<open>verificationMethod\<close> and \<open>authentication\<close>, threading \<open>vm_dict\<close> and \<open>auth_keys\<close>.\<close>

fun parse_methods ::
  "json list \<Rightarrow> string \<Rightarrow> (string \<times> json) list \<Rightarrow> error + (string \<times> json) list" where
  "parse_methods [] doc_id vm_dict = Inr vm_dict"
| "parse_methods (method # ms) doc_id vm_dict =
     (case parse_verification_method method doc_id vm_dict of
        Inl e \<Rightarrow> Inl e
      | Inr (_, vm_dict') \<Rightarrow> parse_methods ms doc_id vm_dict')"

fun parse_auths ::
  "json list \<Rightarrow> string \<Rightarrow> (string \<times> json) list \<Rightarrow> (string \<times> json) list \<Rightarrow>
   error + (string \<times> json) list" where
  "parse_auths [] doc_id vm_dict auth_keys = Inr auth_keys"
| "parse_auths (a # as) doc_id vm_dict auth_keys =
     (case a of
        JStr s \<Rightarrow>
          (let auth = (if starts_with s ''#'' then doc_id @ s else s)
           in if \<not> starts_with auth (doc_id @ ''#'')
              then Inl (RuntimeError ''Invalid log: only local authentication keys supported'')
              else (case dict_get vm_dict auth of
                      None \<Rightarrow> Inl (RuntimeError
                        (''Invalid log: invalid authentication key reference ('' @ auth @ '')''))
                    | Some m \<Rightarrow> parse_auths as doc_id vm_dict (dict_set auth_keys auth m)))
      | JObj _ \<Rightarrow>
          (case parse_verification_method a doc_id vm_dict of
             Inl e \<Rightarrow> Inl e
           | Inr (auth, vm_dict') \<Rightarrow> parse_auths as doc_id vm_dict' (dict_set auth_keys auth a))
      | JArr _ \<Rightarrow> Inl TypeError
      | _ \<Rightarrow> Inl KeyError)"

text \<open>The authentication key set of a document (lines 166 to 189 of \<open>load_log\<close>).\<close>

definition load_auth_keys :: "(string \<times> json) list \<Rightarrow> string \<Rightarrow> error + (string \<times> json) list" where
  "load_auth_keys doc doc_id =
     (case dict_get doc ''verificationMethod'' of
        Some (JArr vmethods) \<Rightarrow>
          (case parse_methods vmethods doc_id [] of
             Inl e \<Rightarrow> Inl e
           | Inr vm_dict \<Rightarrow>
               (case dict_get doc ''authentication'' of
                  Some (JArr auths) \<Rightarrow> parse_auths auths doc_id vm_dict []
                | None \<Rightarrow> Inr []
                | Some _ \<Rightarrow> Inl (RuntimeError ''Invalid log: invalid authentication'')))
      | None \<Rightarrow>
          (case dict_get doc ''authentication'' of
             Some (JArr auths) \<Rightarrow> parse_auths auths doc_id [] []
           | None \<Rightarrow> Inr []
           | Some _ \<Rightarrow> Inl (RuntimeError ''Invalid log: invalid authentication''))
      | Some _ \<Rightarrow> Inl (RuntimeError ''Invalid log: invalid verification methods''))"

text \<open>The proofs the loader reads: the \<open>proof\<close> member of the document, a dict or a list.\<close>

definition proofs_of :: "(string \<times> json) list \<Rightarrow> error + json list" where
  "proofs_of doc =
     (case dict_get doc ''proof'' of
        None \<Rightarrow> Inr []
      | Some (JObj p) \<Rightarrow> Inr [JObj p]
      | Some (JArr ps) \<Rightarrow> Inr ps
      | Some _ \<Rightarrow> Inl (RuntimeError ''Invalid log: invalid or missing proof''))"

fun verify_proofs ::
  "lib \<Rightarrow> (string \<times> json) list \<Rightarrow> string \<Rightarrow> (string \<times> json) list \<Rightarrow> json list \<Rightarrow> error option" where
  "verify_proofs L doc doc_id prev_auth_keys [] = None"
| "verify_proofs L doc doc_id prev_auth_keys (p # ps) =
     (case p of
        JObj proof \<Rightarrow>
          (case dict_get proof ''verificationMethod'' of
             Some (JStr m) \<Rightarrow>
               (let method_id = (if starts_with m ''#'' then doc_id @ m else m)
                in case dict_get prev_auth_keys method_id of
                     None \<Rightarrow> Some (RuntimeError ''Invalid log: cannot resolve verification method'')
                   | Some vmethod \<Rightarrow>
                       (case verify_proof L doc proof vmethod of
                          Some e \<Rightarrow> Some e
                        | None \<Rightarrow> verify_proofs L doc doc_id prev_auth_keys ps))
           | _ \<Rightarrow> Some (RuntimeError ''Invalid log: invalid proof verification method''))
      | _ \<Rightarrow> Some (RuntimeError ''Invalid log: invalid proof''))"

text \<open>The variables \<open>load_log\<close> carries from one line to the next.\<close>

record log_state =
  st_index :: nat
  st_doc :: json
  st_prev_hash :: json
  st_prev_controllers :: "json list"
  st_prev_auth_keys :: "(string \<times> json) list"
  st_doc_id :: json

text \<open>\<open>controllers\<close> of a document (lines 156 to 162), outside the signature block.\<close>

definition controllers_of :: "(string \<times> json) list \<Rightarrow> string \<Rightarrow> error + json list" where
  "controllers_of doc doc_id =
     (case dict_get doc ''controller'' of
        None \<Rightarrow> Inr [JStr doc_id]
      | Some JNull \<Rightarrow> Inr [JStr doc_id]
      | Some (JStr c) \<Rightarrow> Inr [JStr c]
      | Some (JArr cs) \<Rightarrow> Inr cs
      | Some _ \<Rightarrow> Inl (RuntimeError ''Invalid log: invalid controllers''))"

text \<open>The signature block of one entry (lines 165 to 218): the new \<open>auth_keys\<close>, or the exception.\<close>

definition check_signatures ::
  "lib \<Rightarrow> log_state \<Rightarrow> (string \<times> json) list \<Rightarrow> string \<Rightarrow> json list \<Rightarrow>
   error + (string \<times> json) list" where
  "check_signatures L st doc doc_id controllers =
     (case load_auth_keys doc doc_id of
        Inl e \<Rightarrow> Inl e
      | Inr auth_keys \<Rightarrow>
          (let prev_controllers = (if st_index st = 1 then controllers else st_prev_controllers st);
               prev_auth_keys = (if st_index st = 1 then auth_keys else st_prev_auth_keys st)
           in if JStr doc_id \<notin> set prev_controllers
              then Inl (RuntimeError ''Invalid log: DID missing from controllers'')
              else (case proofs_of doc of
                      Inl e \<Rightarrow> Inl e
                    | Inr proofs \<Rightarrow>
                        (case verify_proofs L doc doc_id prev_auth_keys proofs of
                           Some e \<Rightarrow> Inl e
                         | None \<Rightarrow> Inr auth_keys))))"

text \<open>The check of the document id (lines 148 to 154): the SCID derivation at the first entry.\<close>

definition check_doc_id :: "log_state \<Rightarrow> (string \<times> json) list \<Rightarrow> string \<Rightarrow> error option" where
  "check_doc_id st doc check_id =
     (if st_index st = 1
      then (case update_scid (JObj doc) None of
              Inl e \<Rightarrow> Some e
            | Inr (derive_id, _) \<Rightarrow>
                if check_id \<noteq> derive_id
                then Some (RuntimeError ''Invalid log: invalid SCID derivation'')
                else None)
      else if JStr check_id \<noteq> st_doc_id st
      then Some (RuntimeError ''Invalid log: document ID has changed'')
      else None)"

text \<open>
  One pass of the loop body on the five parts of a line: the tuple yielded and the
  variables for the next line, or the exception.
\<close>

definition load_parts ::
  "lib \<Rightarrow> bool \<Rightarrow> bool \<Rightarrow> log_state \<Rightarrow> json \<Rightarrow> json \<Rightarrow> json \<Rightarrow> json \<Rightarrow> json \<Rightarrow>
   error + ((nat \<times> json \<times> json) \<times> log_state)" where
  "load_parts L verify_hash verify_signature st log_hash version_id timestamp patch proofs =
     (case apply_patch L (st_doc st) patch of
        None \<Rightarrow> Inl LibraryError
      | Some (JObj doc) \<Rightarrow>
          if verify_hash \<and>
             JStr (log_line_hash (st_prev_hash st) version_id timestamp patch) \<noteq> log_hash
          then Inl (RuntimeError ''Invalid log: hash mismatch'')
          else
            (case dict_get doc ''id'' of
               Some (JStr check_id) \<Rightarrow>
                 (case check_doc_id st doc check_id of
                    Some e \<Rightarrow> Inl e
                  | None \<Rightarrow>
                      (case controllers_of doc check_id of
                         Inl e \<Rightarrow> Inl e
                       | Inr controllers \<Rightarrow>
                           (case (if verify_signature
                                  then check_signatures L st doc check_id controllers
                                  else Inr []) of
                              Inl e \<Rightarrow> Inl e
                            | Inr auth_keys \<Rightarrow>
                                Inr ((st_index st, log_hash, JObj doc),
                                     \<lparr>st_index = st_index st + 1, st_doc = JObj doc,
                                      st_prev_hash = log_hash,
                                      st_prev_controllers = controllers,
                                      st_prev_auth_keys = auth_keys,
                                      st_doc_id = JStr check_id\<rparr>))))
             | _ \<Rightarrow> Inl (RuntimeError ''Invalid log: invalid document ID''))
      | Some _ \<Rightarrow> Inl (RuntimeError ''Invalid log: invalid document''))"

text \<open>
  A line already given to \<open>json.loads\<close> (\<open>None\<close> when it raised) must be a list of five
  parts.
\<close>

definition load_entry ::
  "lib \<Rightarrow> bool \<Rightarrow> bool \<Rightarrow> log_state \<Rightarrow> json option \<Rightarrow>
   error + ((nat \<times> json \<times> json) \<times> log_state)" where
  "load_entry L verify_hash verify_signature st line =
     (case line of
        None \<Rightarrow> Inl JSONDecodeError
      | Some (JArr [log_hash, version_id, timestamp, patch, proofs]) \<Rightarrow>
          load_parts L verify_hash verify_signature st log_hash version_id timestamp patch proofs
      | Some _ \<Rightarrow> Inl (RuntimeError ''Invalid log: not parsable''))"

text \<open>
  The generator: what it yields, and the exception that ends it (\<open>None\<close> when it is
  exhausted normally). The check after the loop is kept as written.
\<close>

fun load_entries ::
  "lib \<Rightarrow> bool \<Rightarrow> bool \<Rightarrow> log_state \<Rightarrow> json option list \<Rightarrow>
   (nat \<times> json \<times> json) list \<times> error option" where
  "load_entries L verify_hash verify_signature st [] =
     ([], if st_index st = 0 then Some (RuntimeError ''Invalid log: no entries'') else None)"
| "load_entries L verify_hash verify_signature st (line # lines) =
     (case load_entry L verify_hash verify_signature st line of
        Inl e \<Rightarrow> ([], Some e)
      | Inr (y, st') \<Rightarrow>
          (case load_entries L verify_hash verify_signature st' lines of
             (ys, r) \<Rightarrow> (y # ys, r)))"

definition init_state :: log_state where
  "init_state =
     \<lparr>st_index = 1, st_doc = JNull,
      st_prev_hash = JStr (format_hash (sha256 (utf8 BASE_PROTO))),
      st_prev_controllers = [], st_prev_auth_keys = [], st_doc_id = JNull\<rparr>"

definition load_log ::
  "lib \<Rightarrow> bool \<Rightarrow> bool \<Rightarrow> json option list \<Rightarrow> (nat \<times> json \<times> json) list \<times> error option" where
  "load_log L verify_hash verify_signature lines =
     (case lines of
        [] \<Rightarrow> ([], Some (RuntimeError ''generator raised StopIteration''))
      | None # _ \<Rightarrow> ([], Some JSONDecodeError)
      | Some (JArr [h0, h1, h2]) # entries \<Rightarrow>
          if h0 \<noteq> JStr HISTORY_PROTO
          then ([], Some (RuntimeError ''Invalid log: unsupported version''))
          else if h1 \<noteq> JStr BASE_PROTO
          then ([], Some (RuntimeError ''Invalid log: unsupported protocol''))
          else load_entries L verify_hash verify_signature init_state entries
      | Some _ # _ \<Rightarrow> ([], Some (RuntimeError ''Invalid log: header not parsable'')))"

section \<open>The hash chain of the specification\<close>

text \<open>
  Chain integrity as the specification states it: every entry has five parts, and its
  \<open>log_hash\<close> is \<open>log_line_hash\<close> of the previous entry's \<open>log_hash\<close> (the hash of the
  protocol string before entry 1), its \<open>version_id\<close>, its \<open>timestamp\<close> and its \<open>patch\<close>.
\<close>

fun chain_ok :: "json \<Rightarrow> json option list \<Rightarrow> bool" where
  "chain_ok prev_hash [] = True"
| "chain_ok prev_hash (line # lines) =
     (case line of
        Some (JArr [log_hash, version_id, timestamp, patch, proofs]) \<Rightarrow>
          log_hash = JStr (log_line_hash prev_hash version_id timestamp patch) \<and>
          chain_ok log_hash lines
      | _ \<Rightarrow> False)"

section \<open>Signing: \<open>eddsa_sign\<close>\<close>

text \<open>
  The signing key \<open>sk\<close> is its key identifier \<open>kid\<close> and its secret key; the clock read
  by \<open>format_datetime(datetime.now(...))\<close> is the parameter \<open>created\<close>.
\<close>

definition proof_options :: "string \<Rightarrow> string \<Rightarrow> string \<Rightarrow> string \<Rightarrow> (string \<times> json) list" where
  "proof_options doc_id kid created challenge =
     [(''type'', JStr ''DataIntegrityProof''),
      (''cryptosuite'', JStr ''eddsa-jcs-2022''),
      (''verificationMethod'', JStr (doc_id @ ''#'' @ kid)),
      (''created'', JStr created),
      (''challenge'', JStr challenge),
      (''proofPurpose'', JStr ''authentication'')]"

definition eddsa_sign ::
  "lib \<Rightarrow> (string \<times> json) list \<Rightarrow> string \<Rightarrow> bytes \<Rightarrow> string \<Rightarrow> string \<Rightarrow>
   error + (string \<times> json) list" where
  "eddsa_sign L document kid key created challenge =
     (case dict_get document ''id'' of
        None \<Rightarrow> Inl KeyError
      | Some (JStr doc_id) \<Rightarrow>
          (let proof = proof_options doc_id kid created challenge
           in Inr (dict_set proof ''proofValue''
                     (JStr (multibase_encode L (sign_message L key (sig_input document proof))))))
      | Some _ \<Rightarrow> Inl TypeError)"

section \<open>The history iterator: \<open>iter_history\<close>\<close>

text \<open>
  \<open>DocumentState\<close> is defined outside the files at hand; the iterator reads its
  \<open>version_id\<close> and \<open>timestamp\<close> (a \<open>datetime\<close>, here seconds as an integer) and calls
  \<open>DocumentState.load_history_line\<close> and \<open>check_version_hash\<close>, which are parameters.
\<close>

record document_state =
  ds_version_id :: int
  ds_timestamp :: int
  ds_deactivated :: bool
  ds_document :: json

record state_lib =
  load_history_line :: "json \<Rightarrow> document_state option \<Rightarrow> error + document_state"
  check_version_hash :: "document_state \<Rightarrow> error option"

type_synonym verify_state = "document_state \<Rightarrow> document_state option \<Rightarrow> bool \<Rightarrow> error option"

text \<open>
  Reading one line (the \<open>try\<close> statement): the next state, whether \<open>version_time\<close> is
  passed, and the lines left. An exhausted iterator raises \<open>StopAsyncIteration\<close> again
  on every call.
\<close>

definition read_line ::
  "state_lib \<Rightarrow> int option \<Rightarrow> document_state option \<Rightarrow> json option list \<Rightarrow>
   error + (document_state option \<times> bool \<times> json option list)" where
  "read_line SL version_time state history =
     (case history of
        [] \<Rightarrow> Inr (None, False, [])
      | None # rest \<Rightarrow> Inl (ValueError ''Invalid history JSON'')
      | Some parts # rest \<Rightarrow>
          (case load_history_line SL parts state of
             Inl e \<Rightarrow> Inl e
           | Inr next_state \<Rightarrow>
               Inr (Some next_state,
                    (case version_time of
                       Some vt \<Rightarrow> vt < ds_timestamp next_state
                     | None \<Rightarrow> False),
                    rest)))"

text \<open>The statements after the loop, reached with no state at hand.\<close>

definition no_state_error :: "int option \<Rightarrow> int option \<Rightarrow> error" where
  "no_state_error vid version_time =
     (let other = (if version_time \<noteq> None then ValueError ''Cannot resolve versionTime''
                   else ValueError ''Empty document history'')
      in case vid of
           None \<Rightarrow> other
         | Some k \<Rightarrow>
             if k = 0 then other
             else ValueError (''Cannot resolve versionId: '' @ show_int k))"

text \<open>
  The \<open>while not done\<close> loop, one pass for each unit of fuel: \<open>None\<close> when the fuel runs
  out, else the states yielded and the exception that ends the generator, if any.
\<close>

fun iter_loop ::
  "nat \<Rightarrow> state_lib \<Rightarrow> int option \<Rightarrow> int option \<Rightarrow> verify_state option \<Rightarrow>
   document_state option \<Rightarrow> document_state option \<Rightarrow> json option list \<Rightarrow>
   (document_state list \<times> error option) option" where
  "iter_loop 0 SL vid version_time verify prev_state next_state history = None"
| "iter_loop (Suc fuel) SL vid version_time verify prev_state next_state history =
     (case read_line SL version_time next_state history of
        Inl e \<Rightarrow> Some ([], Some e)
      | Inr (next_state', passed, history') \<Rightarrow>
          (case next_state of
             None \<Rightarrow>
               if passed then Some ([], Some (no_state_error vid version_time))
               else iter_loop fuel SL vid version_time verify prev_state next_state' history'
           | Some state \<Rightarrow>
               (let done = (passed \<or> Some (ds_version_id state) = vid \<or> next_state' = None)
                in case check_version_hash SL state of
                     Some e \<Rightarrow> Some ([], Some e)
                   | None \<Rightarrow>
                       (case (case verify of
                                None \<Rightarrow> None
                              | Some f \<Rightarrow> f state prev_state done) of
                          Some e \<Rightarrow> Some ([], Some e)
                        | None \<Rightarrow>
                            if done then Some ([state], None)
                            else (case iter_loop fuel SL vid version_time verify
                                         (Some state) next_state' history' of
                                    None \<Rightarrow> None
                                  | Some (ys, r) \<Rightarrow> Some (state # ys, r))))))"

definition iter_history ::
  "nat \<Rightarrow> state_lib \<Rightarrow> int option \<Rightarrow> int option \<Rightarrow> verify_state option \<Rightarrow>
   json option list \<Rightarrow> (document_state list \<times> error option) option" where
  "iter_history fuel SL vid version_time verify history =
     iter_loop fuel SL vid version_time verify None None history"

section \<open>Rewriting one part of every entry\<close>

text \<open>
  To state that a part of the entries is not looked at: the history in which that part
  of every five-part line is replaced.
\<close>

definition map_version :: "(json \<Rightarrow> json) \<Rightarrow> json option \<Rightarrow> json option" where
  "map_version f line =
     (case line of
        Some (JArr [log_hash, version_id, timestamp, patch, proofs]) \<Rightarrow>
          Some (JArr [log_hash, f version_id, timestamp, patch, proofs])
      | _ \<Rightarrow> line)"

definition map_timestamp :: "(json \<Rightarrow> json) \<Rightarrow> json option \<Rightarrow> json option" where
  "map_timestamp f line =
     (case line of
        Some (JArr [log_hash, version_id, timestamp, patch, proofs]) \<Rightarrow>
          Some (JArr [log_hash, version_id, f timestamp, patch, proofs])
      | _ \<Rightarrow> line)"

definition map_proofs :: "(json \<Rightarrow> json) \<Rightarrow> json option \<Rightarrow> json option" where
  "map_proofs f line =
     (case line of
        Some (JArr [log_hash, version_id, timestamp, patch, proofs]) \<Rightarrow>
          Some (JArr [log_hash, version_id, timestamp, patch, f proofs])
      | _ \<Rightarrow> line)"

section \<open>An example library\<close>

text \<open>
  For the examples, \<open>jsonpatch.apply_patch\<close> is run on the operations \<open>add\<close> and
  \<open>replace\<close> of the whole document and \<open>add\<close> of a member of the root object (RFC
  6902); any other operation is refused. The key functions are a toy scheme in which
  a key is its own public key and a signature is the key followed by the message.
\<close>

definition patch_op :: "json \<Rightarrow> json \<Rightarrow> json option" where
  "patch_op doc operation =
     (case operation of
        JObj m \<Rightarrow>
          (case (dict_get m ''op'', dict_get m ''path'', dict_get m ''value'') of
             (Some (JStr name), Some (JStr path), Some v) \<Rightarrow>
               if path = [] \<and> (name = ''add'' \<or> name = ''replace'') then Some v
               else (case (doc, path) of
                       (JObj d, c # key) \<Rightarrow>
                         if name = ''add'' \<and> c = CHR ''/'' \<and> CHR ''/'' \<notin> set key \<and>
                            CHR ''~'' \<notin> set key
                         then Some (JObj (dict_set d key v))
                         else None
                     | _ \<Rightarrow> None)
           | _ \<Rightarrow> None)
      | _ \<Rightarrow> None)"

fun patch_ops :: "json \<Rightarrow> json list \<Rightarrow> json option" where
  "patch_ops doc [] = Some doc"
| "patch_ops doc (operation # operations) =
     (case patch_op doc operation of
        None \<Rightarrow> None
      | Some doc' \<Rightarrow> patch_ops doc' operations)"

definition example_apply_patch :: "json \<Rightarrow> json \<Rightarrow> json option" where
  "example_apply_patch doc patch =
     (case patch of
        JArr operations \<Rightarrow> patch_ops doc operations
      | _ \<Rightarrow> None)"

definition example_lib :: lib where
  "example_lib =
     \<lparr>apply_patch = example_apply_patch,
      multibase_decode = (\<lambda>s. Some (map ord s)),
      multibase_encode = map char_of,
      multicodec_unwrap =
        (\<lambda>bs. if take 2 bs = [237, 1] then Some (''ed25519-pub'', drop 2 bs) else None),
      multicodec_wrap = (\<lambda>codec bs. [237, 1] @ bs),
      from_public_bytes = Some,
      key_verify_signature = (\<lambda>key message signature. signature = key @ message),
      sign_message = (\<lambda>key message. key @ message),
      get_public_bytes = (\<lambda>key. key)\<rparr>"

section \<open>An example history\<close>

definition example_id :: string where
  "example_id = ''did:webnext:example.com:ff4c2yf5ga75mjnl3ww3vo5u''"

definition example_doc :: "(string \<times> json) list" where
  "example_doc = [(''id'', JStr example_id)]"

definition example_header :: json where
  "example_header = JArr [JStr ''history:1'', JStr ''did:webnext:1'', JObj []]"

definition example_entry1 :: json where
  "example_entry1 =
     JArr [JStr ''zQmS8xYbmFewTU9TDZvbYcskS41RZ2YZ52Ga4z4pAZrT6af'', JInt 5, JStr ''2024-01-02T00:00:00Z'',
       JArr [JObj [(''op'', JStr ''replace''), (''path'', JStr []),
         (''value'', JObj example_doc)]], JArr []]"

definition example_entry2 :: json where
  "example_entry2 =
     JArr [JStr ''zQmXCCatWFUCii9sabHtYHsSP2Xyb58ioXokPJobAc8H5mL'', JInt 3, JStr ''2024-01-01T00:00:00Z'',
       JArr [], JArr []]"

definition example_entry3 :: json where
  "example_entry3 =
     JArr [JStr ''zQmWRnk44bkPKLGv485wioo3ywr6N3vepjFRMxGrRfkZzS9'', JInt 2, JStr ''2024-01-03T00:00:00Z'',
       JArr [JObj [(''op'', JStr ''add''), (''path'', JStr ''/controller''), (''value'', JInt 5)]], JArr []]"

definition example_history :: "json option list" where
  "example_history = [Some example_header, Some example_entry1, Some example_entry2]"

definition example_history_controller :: "json option list" where
  "example_history_controller = [Some example_header, Some example_entry1, Some example_entry3]"

text \<open>A loader of lines \<open>[version_id, timestamp]\<close> for the iterator, with no hash to check.\<close>

definition example_state_lib :: state_lib where
  "example_state_lib =
     \<lparr>load_history_line =
        (\<lambda>parts state.
           case parts of
             JArr [JInt v, JInt t] \<Rightarrow>
               Inr \<lparr>ds_version_id = v, ds_timestamp = t, ds_deactivated = False, ds_document = JNull\<rparr>
           | _ \<Rightarrow> Inl (ValueError ''invalid history line'')),
      check_version_hash = (\<lambda>state. None)\<rparr>"

text \<open>
  A document with one authentication key and a proof that names it, and the state of
  the traversal after an entry with this document.
\<close>

definition example_method :: json where
  "example_method =
     JObj [(''id'', JStr ''#key-1''),
           (''publicKeyMultibase'', JStr [CHR 0xED, CHR 0x01, CHR ''k''])]"

definition example_proof :: "(string \<times> json) list" where
  "example_proof =
     [(''type'', JStr ''DataIntegrityProof''), (''cryptosuite'', JStr ''eddsa-jcs-2022''),
      (''verificationMethod'', JStr ''#key-1''), (''proofPurpose'', JStr ''authentication''),
      (''proofValue'', JStr ''s'')]"

definition example_signed_doc :: "(string \<times> json) list" where
  "example_signed_doc =
     [(''id'', JStr example_id), (''verificationMethod'', JArr [example_method]),
      (''authentication'', JArr [JStr ''#key-1'']), (''proof'', JObj example_proof)]"

definition example_signed_state :: log_state where
  "example_signed_state =
     \<lparr>st_index = 2, st_doc = JObj example_signed_doc,
      st_prev_hash = JStr ''zQmS8xYbmFewTU9TDZvbYcskS41RZ2YZ52Ga4z4pAZrT6af'',
      st_prev_controllers = [JStr example_id],
      st_prev_auth_keys = [(example_id @ ''#key-1'', example_method)],
      st_doc_id = JStr example_id\<rparr>"

section \<open>Facts about strings, JCS and the encodings\<close>

lemma length_be_bytes: "length (be_bytes k n) = k"
  by (simp add: be_bytes_def)

lemma length_state_bytes: "length (state_bytes s) = 32"
  by (cases s rule: state_bytes.cases) (simp add: length_be_bytes)

lemma length_sha256: "length (sha256 m) = 32"
  by (simp add: sha256_def length_state_bytes)

lemma length_bits8: "length (bits8 n) = 8"
  by (simp add: bits8_def)

lemma length_groups5: "length (groups5 xs) = (length xs + 4) div 5"
  by (induction xs rule: groups5.induct) simp_all

lemma length_concat_bits8: "length (concat (map bits8 bs)) = 8 * length bs"
  by (induction bs) (simp_all add: length_bits8)

lemma split_str_nonempty: "split_str d s \<noteq> []"
  by (induction s) (auto split: list.splits)

lemma split_str_no_sep: "p \<in> set (split_str d s) \<Longrightarrow> d \<notin> set p"
  by (induction s arbitrary: p) (auto split: list.splits if_splits)

lemma split_str_plain: "d \<notin> set p \<Longrightarrow> split_str d p = [p]"
  by (induction p) auto

lemma split_str_append:
  "d \<notin> set p \<Longrightarrow> split_str d (p @ d # s) = p # split_str d s"
  by (induction p) auto

lemma split_join:
  "ps \<noteq> [] \<Longrightarrow> \<forall>p \<in> set ps. d \<notin> set p \<Longrightarrow> split_str d (join_str [d] ps) = ps"
proof (induction ps)
  case Nil
  then show ?case by simp
next
  case (Cons x r)
  then show ?case
    by (cases r) (simp_all add: split_str_plain split_str_append)
qed

lemma b32char_alphabet: "b32char n \<in> set ''ABCDEFGHIJKLMNOPQRSTUVWXYZ234567''"
  unfolding b32char_def by (rule nth_mem) simp

lemma lower_alphabet:
  "list_all (\<lambda>c. (if 65 \<le> ord c \<and> ord c \<le> 90 then char_of (ord c + 32) else c)
                  \<in> set ''abcdefghijklmnopqrstuvwxyz234567'')
     ''ABCDEFGHIJKLMNOPQRSTUVWXYZ234567''"
  by code_simp

lemma lower_b32char:
  "c \<in> set ''ABCDEFGHIJKLMNOPQRSTUVWXYZ234567'' \<Longrightarrow>
   (if 65 \<le> ord c \<and> ord c \<le> 90 then char_of (ord c + 32) else c)
     \<in> set ''abcdefghijklmnopqrstuvwxyz234567''"
  using lower_alphabet unfolding list_all_iff by blast

lemma scid_chars:
  assumes "length bs = 32"
  shows "set (take 24 (ascii_lower (b32encode bs))) \<subseteq> set ''abcdefghijklmnopqrstuvwxyz234567''"
    and "length (take 24 (ascii_lower (b32encode bs))) = 24"
proof -
  let ?cs = "map b32char (groups5 (concat (map bits8 bs)))"
  have len: "length ?cs = 52"
    using assms by (simp add: length_groups5 length_concat_bits8)
  have tk: "take 24 (ascii_lower (b32encode bs)) = take 24 (ascii_lower ?cs)"
    using len by (simp add: b32encode_def ascii_lower_def Let_def)
  define lowc where
    "lowc = (\<lambda>c. if 65 \<le> ord c \<and> ord c \<le> 90 then char_of (ord c + 32) else c)"
  have low: "ascii_lower ?cs = map lowc ?cs"
    by (simp add: ascii_lower_def lowc_def)
  have "set (ascii_lower ?cs) \<subseteq> set ''abcdefghijklmnopqrstuvwxyz234567''"
  proof
    fix x
    assume "x \<in> set (ascii_lower ?cs)"
    then obtain n where "x = lowc (b32char n)"
      unfolding low by auto
    then show "x \<in> set ''abcdefghijklmnopqrstuvwxyz234567''"
      using lower_b32char [OF b32char_alphabet, of n] by (simp only: lowc_def)
  qed
  then show "set (take 24 (ascii_lower (b32encode bs))) \<subseteq> set ''abcdefghijklmnopqrstuvwxyz234567''"
    unfolding tk using set_take_subset by fast
  show "length (take 24 (ascii_lower (b32encode bs))) = 24"
    unfolding tk using len by (simp add: ascii_lower_def)
qed


lemma set_join_str: "set (join_str sep ps) \<subseteq> set sep \<union> \<Union> (set ` set ps)"
  by (induction sep ps rule: join_str.induct) auto

lemma set_join_str_member: "p \<in> set ps \<Longrightarrow> set p \<subseteq> set (join_str sep ps)"
  by (induction sep ps rule: join_str.induct) auto

lemma set_split_str: "p \<in> set (split_str d s) \<Longrightarrow> set p \<subseteq> set s"
proof (induction s arbitrary: p)
  case Nil
  then show ?case by simp
next
  case (Cons a s)
  show ?case
  proof (cases "a = d")
    case True
    with Cons show ?thesis by auto
  next
    case False
    obtain q qs where q: "split_str d s = q # qs"
      using split_str_nonempty [of d s] by (cases "split_str d s") auto
    have "set q \<subseteq> set s" and "\<And>r. r \<in> set qs \<Longrightarrow> set r \<subseteq> set s"
      using Cons.IH q by auto
    with Cons.prems False q show ?thesis by auto
  qed
qed

lemma set_replace_from: "set (replace_from old new s) \<subseteq> set new \<union> set s"
proof (induction old new s rule: replace_from.induct)
  case (1 old new)
  then show ?case by simp
next
  case (2 old new c cs)
  have "set (drop (length old - 1) cs) \<subseteq> set cs"
    by (rule set_drop_subset)
  with 2 show ?case by (auto split: if_splits)
qed

lemma set_str_replace: "set (str_replace old new s) \<subseteq> set new \<union> set s"
  using set_replace_from [of old new s] by (auto simp: str_replace_def)

lemma set_insert_member: "set (insert_member kv xs) = insert kv (set xs)"
  by (induction xs) auto

lemma set_sort_members: "set (sort_members kvs) = set kvs"
  unfolding sort_members_def by (induction kvs) (simp_all add: set_insert_member)

lemma jcs_char_high:
  assumes "128 \<le> ord c"
  shows "jcs_char c = [c]"
proof -
  have "\<forall>x \<in> set [CHR 0x22, CHR 0x5C, CHR 0x0A, CHR 0x0D, CHR 0x09, CHR 0x08, CHR 0x0C]. ord x < 128"
    by (simp add: ord_def)
  with assms have "c \<notin> set [CHR 0x22, CHR 0x5C, CHR 0x0A, CHR 0x0D, CHR 0x09, CHR 0x08, CHR 0x0C]"
    by (metis not_le)
  then have "short_escape c = None"
    by (simp add: short_escape_def)
  with assms show ?thesis
    by (simp add: jcs_char_def)
qed

lemma set_jcs_str_high: "c \<in> set s \<Longrightarrow> 128 \<le> ord c \<Longrightarrow> c \<in> set (jcs_str s)"
  using jcs_char_high [of c] by (auto simp: jcs_str_def intro!: bexI [of _ c])

lemma member_in_canonical:
  assumes "dict_get kvs k = Some v"
  shows "set (canonicalize v) \<subseteq> set (canonicalize (JObj kvs))"
proof -
  from assms have "(k, v) \<in> set kvs"
    by (simp add: dict_get_def map_of_SomeD)
  then have "(k, canonicalize v) \<in> set (sort_members (map (map_prod id canonicalize) kvs))"
    by (force simp: set_sort_members)
  then have "jcs_str k @ '':'' @ canonicalize v
      \<in> set (map (\<lambda>kv. jcs_str (fst kv) @ '':'' @ snd kv)
               (sort_members (map (map_prod id canonicalize) kvs)))"
    by force
  from set_join_str_member [OF this, of "'',''"] show ?thesis
    by auto
qed

lemma ascii_id_of_ascii_doc:
  assumes "dict_get kvs ''id'' = Some (JStr doc_id)" and "is_ascii (canonicalize (JObj kvs))"
  shows "is_ascii doc_id"
proof (rule ccontr)
  assume "\<not> is_ascii doc_id"
  then obtain c where c: "c \<in> set doc_id" "128 \<le> ord c"
    by (auto simp: is_ascii_def list_all_iff not_less)
  then have "c \<in> set (canonicalize (JStr doc_id))"
    by (simp add: set_jcs_str_high)
  with member_in_canonical [OF assms(1)] have "c \<in> set (canonicalize (JObj kvs))"
    by blast
  with assms(2) c(2) show False
    by (auto simp: is_ascii_def list_all_iff)
qed

section \<open>The parser never runs out of fuel\<close>

lemma length_skip_ws: "length (skip_ws s) \<le> length s"
  by (simp add: skip_ws_def length_dropWhile_le)

lemma skip_ws_Cons: "skip_ws s = c # cs \<Longrightarrow> length cs < length s"
  using length_skip_ws [of s] by simp

lemma length_tl_skip_ws: "length (tl (skip_ws s)) \<le> length s"
  using length_skip_ws [of s] by simp

lemma parse_str_body_length: "parse_str_body s = Inr (str, r) \<Longrightarrow> length r < length s"
proof (induction s arbitrary: str r rule: parse_str_body.induct)
  case 1
  then show ?case by simp
next
  case (2 c cs)
  then show ?case
    by (auto simp: cons_char_def split: if_splits list.splits sum.splits option.splits) force+
qed

lemma cons_char_fuel: "r \<noteq> Inl NoFuel \<Longrightarrow> cons_char c r \<noteq> Inl NoFuel"
  by (auto simp: cons_char_def split: sum.splits)

lemma uchar_fuel: "uchar a b c d \<noteq> Inl NoFuel"
  by (simp add: uchar_def split: option.splits)

lemma parse_str_body_fuel: "parse_str_body s \<noteq> Inl NoFuel"
proof (induction s rule: parse_str_body.induct)
  case 1
  then show ?case by simp
next
  case (2 c cs)
  then show ?case
    using uchar_fuel
    by (auto simp: cons_char_fuel split: list.splits sum.splits option.splits)
qed

lemma parse_number_length: "parse_number s = Inr (v, r) \<Longrightarrow> length r < length s"
proof -
  assume a: "parse_number s = Inr (v, r)"
  define s1 where "s1 = (if s \<noteq> [] \<and> hd s = CHR ''-'' then tl s else s)"
  define ds where "ds = (if s1 \<noteq> [] \<and> hd s1 = CHR ''0'' then ''0'' else takeWhile is_digit s1)"
  from a have ne: "ds \<noteq> []" and r: "r = drop (length ds) s1"
    by (auto simp: parse_number_def Let_def s1_def ds_def split: if_splits)
  have "length ds \<le> length s1"
    by (cases s1) (auto simp: ds_def length_takeWhile_le)
  moreover have "0 < length ds" using ne by simp
  moreover have "length s1 \<le> length s" by (simp add: s1_def)
  ultimately show ?thesis unfolding r length_drop by arith
qed

lemma parse_number_fuel: "parse_number s \<noteq> Inl NoFuel"
  by (simp add: parse_number_def Let_def)

lemma parse_length:
  "parse_value n s = Inr (v, r) \<Longrightarrow> length r < length s"
  "parse_elems n s acc = Inr (v, r) \<Longrightarrow> length r < length s"
  "parse_members n s kvs = Inr (v, r) \<Longrightarrow> length r < length s"
proof (induction n s and n s acc and n s kvs arbitrary: v r and v r and v r
       rule: parse_value_parse_elems_parse_members.induct)
  case (1 s)
  then show ?case by simp
next
  case (2 n s)
  from "2.prems" obtain c cs where sk: "skip_ws s = c # cs"
    by (cases "skip_ws s") auto
  note len = skip_ws_Cons [OF sk] length_tl_skip_ws [of cs]
  from "2.prems" sk len show ?case
    using "2.IH"(1) [OF sk, of v r] "2.IH"(2) [OF sk, of v r]
      parse_str_body_length [of cs] parse_number_length [of "c # cs" v r]
    by (auto simp: starts_with_def split: if_splits sum.splits)
next
  case (3 s acc)
  then show ?case by simp
next
  case (4 n s acc)
  from "4.prems" obtain x r1 where pv: "parse_value n s = Inr (x, r1)"
    by (auto split: sum.splits)
  from "4.IH"(1) [OF pv] have l1: "length r1 < length s" .
  from "4.prems" pv obtain c r' where sk: "skip_ws r1 = c # r'"
    by (cases "skip_ws r1") auto
  from skip_ws_Cons [OF sk] l1 have l2: "length r' < length s" by simp
  show ?case
  proof (cases "c = CHR '',''")
    case True
    with "4.prems" pv sk have "parse_elems n r' (acc @ [x]) = Inr (v, r)" by simp
    from "4.IH"(2) [OF pv refl sk True this] l2 show ?thesis by simp
  next
    case False
    with "4.prems" pv sk l2 show ?thesis by (auto split: if_splits)
  qed
next
  case (5 s kvs)
  then show ?case by simp
next
  case (6 n s kvs)
  from "6.prems" obtain q r0 where sk: "skip_ws s = q # r0"
    by (cases "skip_ws s") auto
  from "6.prems" sk have q: "q = CHR 0x22" by (auto split: if_splits)
  from "6.prems" sk q obtain k r1 where ps: "parse_str_body r0 = Inr (k, r1)"
    by (auto split: sum.splits)
  from "6.prems" sk q ps obtain c r2 where sk1: "skip_ws r1 = c # r2"
    by (cases "skip_ws r1") auto
  from "6.prems" sk q ps sk1 have c: "c = CHR '':''" by (auto split: if_splits)
  from "6.prems" sk q ps sk1 c obtain x r3 where pv: "parse_value n r2 = Inr (x, r3)"
    by (auto split: sum.splits)
  from "6.prems" sk q ps sk1 c pv obtain d r4 where sk3: "skip_ws r3 = d # r4"
    by (cases "skip_ws r3") auto
  have l: "length r4 < length s"
    using skip_ws_Cons [OF sk] parse_str_body_length [OF ps] skip_ws_Cons [OF sk1]
      "6.IH"(1) [OF sk _ ps refl sk1 _ pv] q c skip_ws_Cons [OF sk3]
    by simp
  show ?case
  proof (cases "d = CHR '',''")
    case True
    with "6.prems" sk q ps sk1 c pv sk3
    have "parse_members n r4 (dict_set kvs k x) = Inr (v, r)" by simp
    from "6.IH"(2) [OF sk _ ps refl sk1 _ pv refl sk3 True this] q c l show ?thesis by simp
  next
    case False
    with "6.prems" sk q ps sk1 c pv sk3 l show ?thesis by (auto split: if_splits)
  qed
qed

lemma parse_fuel:
  "2 * length s < n \<Longrightarrow> parse_value n s \<noteq> Inl NoFuel"
  "2 * length s + 2 \<le> n \<Longrightarrow> parse_elems n s acc \<noteq> Inl NoFuel"
  "2 * length s + 2 \<le> n \<Longrightarrow> parse_members n s kvs \<noteq> Inl NoFuel"
proof (induction n s and n s acc and n s kvs
       rule: parse_value_parse_elems_parse_members.induct)
  case (1 s)
  then show ?case by simp
next
  case (2 n s)
  show ?case
  proof (cases "skip_ws s")
    case Nil
    then show ?thesis by simp
  next
    case (Cons c cs)
    from skip_ws_Cons [OF Cons] "2.prems" have l: "2 * length cs + 2 \<le> n" by simp
    from Cons l "2.IH"(1) [OF Cons] "2.IH"(2) [OF Cons] show ?thesis
      using parse_str_body_fuel [of cs] parse_number_fuel [of "c # cs"]
      by (auto split: sum.splits)
  qed
next
  case (3 s acc)
  then show ?case by simp
next
  case (4 n s acc)
  from "4.prems" have "2 * length s < n" by simp
  from "4.IH"(1) [OF this] have nf: "parse_value n s \<noteq> Inl NoFuel" .
  show ?case
  proof (cases "parse_value n s")
    case (Inl e)
    with nf show ?thesis by simp
  next
    case (Inr a)
    obtain x r1 where a: "a = (x, r1)" by (cases a)
    from Inr a have pv: "parse_value n s = Inr (x, r1)" by simp
    from parse_length(1) [OF pv] have l1: "length r1 < length s" .
    show ?thesis
    proof (cases "skip_ws r1")
      case Nil
      with pv show ?thesis by simp
    next
      case (Cons c r')
      from skip_ws_Cons [OF Cons] l1 "4.prems" have "2 * length r' + 2 \<le> n" by simp
      with "4.IH"(2) [OF pv refl Cons] pv Cons show ?thesis by auto
    qed
  qed
next
  case (5 s kvs)
  then show ?case by simp
next
  case (6 n s kvs)
  show ?case
  proof (cases "skip_ws s")
    case Nil
    then show ?thesis by simp
  next
    case sk: (Cons q r0)
    show ?thesis
    proof (cases "q = CHR 0x22")
      case False
      with sk show ?thesis by simp
    next
      case q: True
      show ?thesis
      proof (cases "parse_str_body r0")
        case (Inl e)
        with sk q parse_str_body_fuel [of r0] show ?thesis by simp
      next
        case (Inr a)
        obtain k r1 where a: "a = (k, r1)" by (cases a)
        from Inr a have ps: "parse_str_body r0 = Inr (k, r1)" by simp
        show ?thesis
        proof (cases "skip_ws r1")
          case Nil
          with sk q ps show ?thesis by simp
        next
          case sk1: (Cons c r2)
          show ?thesis
          proof (cases "c = CHR '':''")
            case False
            with sk q ps sk1 show ?thesis by simp
          next
            case c: True
            have l2: "length r2 + 3 \<le> length s"
              using skip_ws_Cons [OF sk] parse_str_body_length [OF ps] skip_ws_Cons [OF sk1]
              by simp
            with "6.prems" have "2 * length r2 < n" by simp
            from "6.IH"(1) [OF sk _ ps refl sk1 _ this] q c
            have nf: "parse_value n r2 \<noteq> Inl NoFuel" by simp
            show ?thesis
            proof (cases "parse_value n r2")
              case (Inl e)
              with nf sk q ps sk1 c show ?thesis by simp
            next
              case (Inr b)
              obtain x r3 where b: "b = (x, r3)" by (cases b)
              from Inr b have pv: "parse_value n r2 = Inr (x, r3)" by simp
              show ?thesis
              proof (cases "skip_ws r3")
                case Nil
                with sk q ps sk1 c pv show ?thesis by simp
              next
                case sk3: (Cons d r4)
                from parse_length(1) [OF pv] skip_ws_Cons [OF sk3] l2 "6.prems"
                have "2 * length r4 + 2 \<le> n" by simp
                with "6.IH"(2) [OF sk _ ps refl sk1 _ pv refl sk3] sk q ps sk1 c pv sk3
                show ?thesis by auto
              qed
            qed
          qed
        qed
      qed
    qed
  qed
qed

lemma json_loads_fuel: "json_loads s \<noteq> Inl NoFuel"
  using parse_fuel(1) [of s "2 * length s + 2"]
  by (auto simp: json_loads_def split: sum.splits)

text \<open>More fuel does not change what the parser returns.\<close>

lemma parse_mono:
  "parse_value n s \<noteq> Inl NoFuel \<Longrightarrow> parse_value (Suc n) s = parse_value n s"
  "parse_elems n s acc \<noteq> Inl NoFuel \<Longrightarrow> parse_elems (Suc n) s acc = parse_elems n s acc"
  "parse_members n s kvs \<noteq> Inl NoFuel \<Longrightarrow> parse_members (Suc n) s kvs = parse_members n s kvs"
proof (induction n s and n s acc and n s kvs
       rule: parse_value_parse_elems_parse_members.induct)
  case (1 s)
  then show ?case by simp
next
  case (2 n s)
  show ?case
  proof (cases "skip_ws s")
    case Nil
    then show ?thesis by simp
  next
    case (Cons c cs)
    from "2.prems" Cons "2.IH"(1) [OF Cons] "2.IH"(2) [OF Cons] show ?thesis
      by (auto simp del: parse_members.simps parse_elems.simps split: sum.splits)
  qed
next
  case (3 s acc)
  then show ?case by simp
next
  case (4 n s acc)
  from "4.prems" have nf: "parse_value n s \<noteq> Inl NoFuel"
    by (auto split: sum.splits)
  from "4.IH"(1) [OF this] have e: "parse_value (Suc n) s = parse_value n s" .
  show ?case
  proof (cases "parse_value n s")
    case (Inl err)
    with e show ?thesis by (simp del: parse_value.simps)
  next
    case (Inr a)
    obtain x r1 where a: "a = (x, r1)" by (cases a)
    from Inr a have pv: "parse_value n s = Inr (x, r1)" by simp
    show ?thesis
    proof (cases "skip_ws r1")
      case Nil
      with pv e show ?thesis by (simp del: parse_value.simps)
    next
      case (Cons c r')
      from "4.prems" pv Cons "4.IH"(2) [OF pv refl Cons] e show ?thesis
        by (auto simp del: parse_value.simps)
    qed
  qed
next
  case (5 s kvs)
  then show ?case by simp
next
  case (6 n s kvs)
  show ?case
  proof (cases "skip_ws s")
    case Nil
    then show ?thesis by simp
  next
    case sk: (Cons q r0)
    show ?thesis
    proof (cases "q = CHR 0x22")
      case False
      with sk show ?thesis by simp
    next
      case q: True
      show ?thesis
      proof (cases "parse_str_body r0")
        case (Inl e)
        with sk q show ?thesis by simp
      next
        case (Inr a)
        obtain k r1 where a: "a = (k, r1)" by (cases a)
        from Inr a have ps: "parse_str_body r0 = Inr (k, r1)" by simp
        show ?thesis
        proof (cases "skip_ws r1")
          case Nil
          with sk q ps show ?thesis by simp
        next
          case sk1: (Cons c r2)
          show ?thesis
          proof (cases "c = CHR '':''")
            case False
            with sk q ps sk1 show ?thesis by simp
          next
            case c: True
            from "6.prems" sk q ps sk1 c have nf: "parse_value n r2 \<noteq> Inl NoFuel"
              by (auto split: sum.splits)
            from "6.IH"(1) [OF sk _ ps refl sk1 _ nf] q c
            have e: "parse_value (Suc n) r2 = parse_value n r2" by simp
            show ?thesis
            proof (cases "parse_value n r2")
              case (Inl err)
              with e sk q ps sk1 c show ?thesis by (simp del: parse_value.simps)
            next
              case (Inr b)
              obtain x r3 where b: "b = (x, r3)" by (cases b)
              from Inr b have pv: "parse_value n r2 = Inr (x, r3)" by simp
              show ?thesis
              proof (cases "skip_ws r3")
                case Nil
                with sk q ps sk1 c pv e show ?thesis by (simp del: parse_value.simps)
              next
                case sk3: (Cons d r4)
                from "6.prems" "6.IH"(2) [OF sk _ ps refl sk1 _ pv refl sk3] sk q ps sk1 c pv sk3 e
                show ?thesis by (auto simp del: parse_value.simps)
              qed
            qed
          qed
        qed
      qed
    qed
  qed
qed

lemma parse_value_more_fuel:
  "parse_value n s \<noteq> Inl NoFuel \<Longrightarrow> parse_value (n + k) s = parse_value n s"
  by (induction k) (simp_all add: parse_mono(1) del: parse_value.simps)

text \<open>A value parsed with some fuel is what \<open>json.loads\<close> returns.\<close>

lemma json_loads_parse_value:
  assumes "parse_value n s = Inr (v, r)" and "skip_ws r = []"
  shows "json_loads s = Inr v"
proof -
  let ?m = "2 * length s + 2"
  have nf: "parse_value ?m s \<noteq> Inl NoFuel"
    by (rule parse_fuel(1)) simp
  have "parse_value ?m s = Inr (v, r)"
  proof (cases "n \<le> ?m")
    case True
    then obtain k where k: "?m = n + k" using le_Suc_ex by blast
    from assms(1) have "parse_value n s \<noteq> Inl NoFuel" by simp
    from parse_value_more_fuel [OF this, of k] assms(1) k show ?thesis by simp
  next
    case False
    then obtain k where k: "n = ?m + k" using le_Suc_ex [of ?m n] by auto
    from parse_value_more_fuel [OF nf, of k] assms(1) k show ?thesis by simp
  qed
  with assms(2) show ?thesis by (simp add: json_loads_def)
qed

section \<open>Evaluating the hash functions\<close>

text \<open>Equations that let the simplifier run the recursions on numerals.\<close>

lemma blocks_numeral:
  "blocks (numeral n) s bs = blocks (pred_numeral n) (compress s (take 64 bs)) (drop 64 bs)"
  by (simp add: numeral_eq_Suc)

lemma sched_numeral:
  "sched (numeral n) w =
     sched (pred_numeral n) (add32 (add32 (add32 (ssig1 (w ! 1)) (w ! 6)) (ssig0 (w ! 14))) (w ! 15) # w)"
  by (simp add: numeral_eq_Suc)

lemma replicate_numeral_eval: "replicate (numeral k) x = x # replicate (pred_numeral k) x"
  by (simp add: numeral_eq_Suc)

lemma upt_0_8: "[0..<8] = [0, 1, 2, 3, 4, 5, 6, 7]"
  by code_simp

lemma upt_0_4: "[0..<4] = [0, 1, 2, 3]"
  by code_simp

lemma be_bytes_8:
  "be_bytes 8 n = [n div 256 ^ 7 mod 256, n div 256 ^ 6 mod 256, n div 256 ^ 5 mod 256,
     n div 256 ^ 4 mod 256, n div 256 ^ 3 mod 256, n div 256 ^ 2 mod 256, n div 256 mod 256,
     n mod 256]"
  by (simp add: be_bytes_def upt_0_8)

lemma be_bytes_4:
  "be_bytes 4 n = [n div 256 ^ 3 mod 256, n div 256 ^ 2 mod 256, n div 256 mod 256, n mod 256]"
  by (simp add: be_bytes_def upt_0_4)

lemmas sha_defs = sha256_def pad_def be_bytes_8 be_bytes_4 replicate_numeral_eval
  blocks_numeral sched_numeral compress_def
  K256_def H256_def add32_def rotr_def ssig0_def ssig1_def bsig0_def bsig1_def
  ch_def maj_def utf8_def ord_def

lemma show_nat_numeral:
  "show_nat (numeral k) =
     (if (numeral k :: nat) < 10 then [char_of (48 + (numeral k :: nat))]
      else show_nat (numeral k div 10) @ [char_of (48 + (numeral k :: nat) mod 10)])"
  by (subst show_nat.simps) simp

lemma char_of_eq_literal: "char_of (n :: nat) = c \<longleftrightarrow> n mod 256 = of_char c"
  by (metis of_char_of char_of_char char_of_mod_256)

lemmas jcs_defs = jcs_str_def jcs_char_def short_escape_def sort_members_def ord_def
  show_int_def show_nat_numeral

lemmas b32_defs = b32encode_def bits8_def upt_0_8 bits_val_def b32char_def ascii_lower_def
  ord_def Let_def char_of_eq_literal

text \<open>
  Base58 is checked rather than computed: a list of digits whose value is the number
  encoded is the list of digits \<open>b58digits\<close> returns.
\<close>

lemma b58digits_step:
  "d < 58 \<Longrightarrow> 0 < 58 * n + d \<Longrightarrow> b58digits (58 * n + d) = b58digits n @ [b58char d]"
  by (subst b58digits.simps) simp

lemma horner_pos:
  "ds \<noteq> [] \<Longrightarrow> hd ds \<noteq> 0 \<Longrightarrow> 0 < foldl (\<lambda>a d. 58 * a + d) (0::nat) ds"
  by (induction ds rule: rev_induct) (auto simp: hd_append split: if_splits)

lemma b58digits_horner:
  "list_all (\<lambda>d. d < 58) ds \<Longrightarrow> ds \<noteq> [] \<Longrightarrow> hd ds \<noteq> 0 \<Longrightarrow>
   b58digits (foldl (\<lambda>a d. 58 * a + d) 0 ds) = map b58char ds"
proof (induction ds rule: rev_induct)
  case Nil
  then show ?case by simp
next
  case (snoc x xs)
  show ?case
  proof (cases "xs = []")
    case True
    with snoc.prems have "0 < x" "x < 58" by simp_all
    then have "b58digits (58 * 0 + x) = b58digits 0 @ [b58char x]"
      by (intro b58digits_step) simp_all
    moreover have "b58digits 0 = []"
      by (subst b58digits.simps) simp
    ultimately show ?thesis using True by simp
  next
    case False
    with snoc.prems have h: "hd xs \<noteq> 0" and a: "list_all (\<lambda>d. d < 58) xs" and x: "x < 58"
      by simp_all
    from horner_pos [OF False h] x
    have "b58digits (58 * foldl (\<lambda>a d. 58 * a + d) 0 xs + x) =
        b58digits (foldl (\<lambda>a d. 58 * a + d) 0 xs) @ [b58char x]"
      by (intro b58digits_step) simp_all
    with snoc.IH [OF a False h] show ?thesis by simp
  qed
qed

lemma format_hash_digits:
  assumes "bytes_val (18 # 32 # digest) = foldl (\<lambda>a d. 58 * a + d) 0 ds"
    and "length digest = 32" and "list_all (\<lambda>d. d < 58) ds" and "ds \<noteq> []" and "hd ds \<noteq> 0"
  shows "format_hash digest = CHR ''z'' # map b58char ds"
  using assms b58digits_horner [of ds]
  by (simp add: format_hash_def multihash_wrap_def base58btc_def)

lemma sha256_base_proto:
  "sha256 (utf8 BASE_PROTO) =
     [243, 240, 7, 36, 228, 187, 46, 101, 63, 127, 109, 25, 183, 126, 211, 189, 173, 83, 98, 241,
     118, 14, 210, 187, 49, 28, 108, 207, 209, 131, 35, 52]"
  by (simp add: BASE_PROTO_def METHOD_def sha_defs)

lemma format_hash_base_proto:
  "format_hash
     [243, 240, 7, 36, 228, 187, 46, 101, 63, 127, 109, 25, 183, 126, 211, 189, 173, 83, 98, 241,
     118, 14, 210, 187, 49, 28, 108, 207, 209, 131, 35, 52] =
   ''zQmekt4YnthWV8EdLx2cQE6Wfi7J6j6Z16GFAZbTaU4jB55''"
  by (subst format_hash_digits [where ds =
     "[23, 44, 37, 43, 51, 3, 31, 45, 51, 40, 29, 28, 7, 13, 36, 19, 55, 1, 35, 23, 13, 5, 29, 38, 41,
      6, 17, 5, 42, 5, 32, 0, 5, 15, 14, 9, 32, 34, 26, 33, 27, 3, 42, 10, 4, 4]"])
     (simp_all add: bytes_val_def b58char_def)

lemma sha256_genesis:
  "sha256 (utf8 (canonicalize (JObj [(''id'', JStr ''did:webnext:example.com:{{SCID}}'')]))) =
     [41, 120, 45, 96, 189, 48, 63, 214, 37, 171, 221, 173, 186, 187, 180, 138, 109, 95, 220, 22, 29,
     5, 202, 149, 182, 94, 142, 159, 31, 150, 25, 240]"
  by (simp add: jcs_defs sha_defs)

lemma sha256_entry1:
  "sha256 (utf8 (canonicalize (JArr [JStr ''zQmekt4YnthWV8EdLx2cQE6Wfi7J6j6Z16GFAZbTaU4jB55'', JInt 5, JStr
     ''2024-01-02T00:00:00Z'', JArr [JObj [(''op'', JStr ''replace''), (''path'', JStr []),
     (''value'', JObj [(''id'', JStr ''did:webnext:example.com:ff4c2yf5ga75mjnl3ww3vo5u'')])]]]))) =
     [56, 111, 242, 1, 104, 15, 197, 85, 234, 229, 100, 222, 104, 203, 182, 83, 25, 237, 106, 18, 64,
     224, 112, 140, 4, 220, 93, 15, 196, 127, 220, 52]"
  by (simp add: jcs_defs sha_defs)

lemma format_hash_entry1:
  "format_hash
     [56, 111, 242, 1, 104, 15, 197, 85, 234, 229, 100, 222, 104, 203, 182, 83, 25, 237, 106, 18, 64,
     224, 112, 140, 4, 220, 93, 15, 196, 127, 220, 52] =
   ''zQmS8xYbmFewTU9TDZvbYcskS41RZ2YZ52Ga4z4pAZrT6af''"
  by (subst format_hash_digits [where ds =
     "[23, 44, 25, 7, 55, 31, 34, 44, 14, 37, 54, 26, 27, 8, 26, 12, 32, 53, 34, 31, 35, 50, 43, 25,
      3, 0, 24, 32, 1, 31, 32, 4, 1, 15, 33, 3, 57, 3, 47, 9, 32, 49, 26, 5, 33, 38]"])
     (simp_all add: bytes_val_def b58char_def)

lemma sha256_entry2:
  "sha256 (utf8 (canonicalize (JArr [JStr ''zQmS8xYbmFewTU9TDZvbYcskS41RZ2YZ52Ga4z4pAZrT6af'', JInt 3, JStr
     ''2024-01-01T00:00:00Z'', JArr []]))) =
     [131, 142, 255, 50, 60, 9, 20, 177, 55, 42, 65, 198, 114, 211, 189, 81, 25, 41, 187, 51, 25,
     143, 104, 1, 205, 70, 68, 197, 108, 10, 102, 171]"
  by (simp add: jcs_defs sha_defs)

lemma format_hash_entry2:
  "format_hash
     [131, 142, 255, 50, 60, 9, 20, 177, 55, 42, 65, 198, 114, 211, 189, 81, 25, 41, 187, 51, 25,
     143, 104, 1, 205, 70, 68, 197, 108, 10, 102, 171] =
   ''zQmXCCatWFUCii9sabHtYHsSP2Xyb58ioXokPJobAc8H5mL''"
  by (subst format_hash_digits [where ds =
     "[23, 44, 30, 11, 11, 33, 51, 29, 14, 27, 11, 41, 41, 8, 50, 33, 34, 16, 51, 31, 16, 50, 25, 22,
      1, 30, 56, 34, 4, 7, 41, 46, 30, 46, 43, 22, 17, 46, 34, 9, 35, 7, 16, 4, 44, 19]"])
     (simp_all add: bytes_val_def b58char_def)

lemma sha256_entry3:
  "sha256 (utf8 (canonicalize (JArr [JStr ''zQmS8xYbmFewTU9TDZvbYcskS41RZ2YZ52Ga4z4pAZrT6af'', JInt 2, JStr
     ''2024-01-03T00:00:00Z'', JArr [JObj [(''op'', JStr ''add''), (''path'', JStr ''/controller''),
     (''value'', JInt 5)]]]))) =
     [120, 46, 123, 168, 147, 49, 180, 84, 71, 95, 125, 235, 8, 209, 41, 207, 15, 137, 57, 211, 188,
     254, 78, 236, 17, 145, 213, 226, 34, 126, 12, 166]"
  by (simp add: jcs_defs sha_defs)

lemma format_hash_entry3:
  "format_hash
     [120, 46, 123, 168, 147, 49, 180, 84, 71, 95, 125, 235, 8, 209, 41, 207, 15, 137, 57, 211, 188,
     254, 78, 236, 17, 145, 213, 226, 34, 126, 12, 166] =
   ''zQmWRnk44bkPKLGv485wioo3ywr6N3vepjFRMxGrRfkZzS9''"
  by (subst format_hash_digits [where ds =
     "[23, 44, 29, 24, 45, 43, 3, 3, 34, 43, 22, 18, 19, 15, 53, 3, 7, 4, 54, 41, 46, 46, 2, 56, 54,
      49, 5, 21, 2, 53, 37, 47, 42, 14, 24, 20, 55, 15, 49, 24, 38, 43, 32, 57, 25, 8]"])
     (simp_all add: bytes_val_def b58char_def)

lemma sha256_genesis_net:
  "sha256 (utf8 (canonicalize (JObj [(''id'', JStr ''did:webnext:example.net:{{SCID}}'')]))) =
     [248, 96, 22, 92, 68, 223, 63, 152, 183, 84, 158, 137, 207, 35, 232, 86, 203, 54, 209, 47, 234,
     128, 70, 129, 180, 2, 60, 108, 230, 115, 205, 4]"
  by (simp add: jcs_defs sha_defs)


section \<open>Reading the log\<close>

lemma load_entry_parts:
  "load_entry L vh vs st (Some (JArr [h, v, t, p, pr])) = load_parts L vh vs st h v t p pr"
  by (simp add: load_entry_def)

lemma load_entry_Inr_line:
  "load_entry L vh vs st line = Inr r \<Longrightarrow> \<exists>h v t p pr. line = Some (JArr [h, v, t, p, pr])"
  by (auto simp: load_entry_def split: option.splits json.splits list.splits)

lemma load_parts_Inr:
  "load_parts L vh vs st h v t p pr = Inr (y, st') \<longleftrightarrow>
     (\<exists>d cid cs ak. apply_patch L (st_doc st) p = Some (JObj d) \<and>
        (vh \<longrightarrow> h = JStr (log_line_hash (st_prev_hash st) v t p)) \<and>
        dict_get d ''id'' = Some (JStr cid) \<and> check_doc_id st d cid = None \<and>
        controllers_of d cid = Inr cs \<and>
        (if vs then check_signatures L st d cid cs = Inr ak else ak = []) \<and>
        y = (st_index st, h, JObj d) \<and>
        st' = \<lparr>st_index = st_index st + 1, st_doc = JObj d, st_prev_hash = h,
               st_prev_controllers = cs, st_prev_auth_keys = ak, st_doc_id = JStr cid\<rparr>)"
  unfolding load_parts_def
  by (auto split: option.splits json.splits sum.splits if_splits)

lemma load_entries_chain:
  "load_entries L True vs st lines = (ys, None) \<Longrightarrow> chain_ok (st_prev_hash st) lines"
proof (induction lines arbitrary: st ys)
  case Nil
  then show ?case by simp
next
  case (Cons line lines)
  from Cons.prems obtain y st' where e: "load_entry L True vs st line = Inr (y, st')"
    by (auto split: sum.splits)
  then obtain h v t p pr where l: "line = Some (JArr [h, v, t, p, pr])"
    using load_entry_Inr_line by blast
  from e l have p: "load_parts L True vs st h v t p pr = Inr (y, st')"
    by (simp add: load_entry_parts)
  then have hh: "h = JStr (log_line_hash (st_prev_hash st) v t p)" and s: "st_prev_hash st' = h"
    unfolding load_parts_Inr by auto
  from Cons.prems e obtain ys' where "load_entries L True vs st' lines = (ys', None)"
    by (auto split: prod.splits)
  from Cons.IH [OF this] s hh l show ?case by simp
qed

lemma load_entries_index:
  "load_entries L vh vs st lines = (ys, r) \<Longrightarrow>
   map fst ys = [st_index st ..< st_index st + length ys]"
proof (induction lines arbitrary: st ys r)
  case Nil
  then show ?case by simp
next
  case (Cons line lines)
  show ?case
  proof (cases "load_entry L vh vs st line")
    case (Inl e)
    with Cons.prems show ?thesis by simp
  next
    case (Inr a)
    obtain y st' where a: "a = (y, st')" by (cases a)
    from Inr a obtain h v t p pr where l: "line = Some (JArr [h, v, t, p, pr])"
      using load_entry_Inr_line by blast
    from Inr a l have "load_parts L vh vs st h v t p pr = Inr (y, st')"
      by (simp add: load_entry_parts)
    then have y: "fst y = st_index st" and s: "st_index st' = st_index st + 1"
      unfolding load_parts_Inr by auto
    obtain ys' r' where rest: "load_entries L vh vs st' lines = (ys', r')"
      by (cases "load_entries L vh vs st' lines")
    with Cons.prems Inr a have ys: "ys = y # ys'" by simp
    from Cons.IH [OF rest] s
    have "map fst ys' = [Suc (st_index st) ..< Suc (st_index st) + length ys']"
      by simp
    with y ys show ?thesis
      by (simp add: upt_conv_Cons del: upt_Suc)
  qed
qed

text \<open>What \<open>load_log\<close> does after the header.\<close>

lemma load_log_header:
  "load_log L vh vs (Some (JArr [JStr HISTORY_PROTO, JStr BASE_PROTO, meta]) # lines) =
     load_entries L vh vs init_state lines"
  by (simp add: load_log_def)

lemma load_log_cases:
  "load_log L vh vs (header # lines) = load_entries L vh vs init_state lines \<or>
   (\<exists>e. load_log L vh vs (header # lines) = ([], Some e))"
  by (auto simp: load_log_def split: option.splits json.splits list.splits)

lemma load_log_hash_mismatch:
  "apply_patch L (st_doc st) p = Some (JObj d) \<Longrightarrow>
   h \<noteq> JStr (log_line_hash (st_prev_hash st) v t p) \<Longrightarrow>
   load_entries L True vs st (Some (JArr [h, v, t, p, pr]) # lines) =
     ([], Some (RuntimeError ''Invalid log: hash mismatch''))"
  by (auto simp: load_entry_parts load_parts_def)

lemma load_log_chain:
  "load_log L True vs (header # lines) = (ys, None) \<Longrightarrow>
   chain_ok (JStr (format_hash (sha256 (utf8 BASE_PROTO)))) lines"
  using load_log_cases [of L True vs header lines] load_entries_chain [of L vs init_state lines ys]
  by (auto simp: init_state_def)

lemma load_log_index:
  "load_log L vh vs lines = (ys, r) \<Longrightarrow> map fst ys = [1 ..< Suc (length ys)]"
proof (cases lines)
  case Nil
  assume "load_log L vh vs lines = (ys, r)"
  with Nil show ?thesis by (simp add: load_log_def)
next
  case (Cons header rest)
  assume a: "load_log L vh vs lines = (ys, r)"
  from load_log_cases [of L vh vs header rest] show ?thesis
  proof
    assume "load_log L vh vs (header # rest) = load_entries L vh vs init_state rest"
    with a Cons have "load_entries L vh vs init_state rest = (ys, r)" by simp
    from load_entries_index [OF this] show ?thesis by (simp add: init_state_def)
  next
    assume "\<exists>e. load_log L vh vs (header # rest) = ([], Some e)"
    with a Cons show ?thesis by auto
  qed
qed

text \<open>Parts of a line that the loop body does not read.\<close>

lemma load_entry_map_version:
  "load_entry L False vs st (map_version f line) = load_entry L False vs st line"
proof (cases "\<exists>h v t p pr. line = Some (JArr [h, v, t, p, pr])")
  case True
  then obtain h v t p pr where l: "line = Some (JArr [h, v, t, p, pr])" by blast
  show ?thesis unfolding l
    by (simp add: map_version_def load_entry_def load_parts_def split: option.splits json.splits)
next
  case False
  then have "map_version f line = line"
    by (auto simp: map_version_def split: option.splits json.splits list.splits)
  then show ?thesis by simp
qed

lemma load_entry_map_timestamp:
  "load_entry L False vs st (map_timestamp f line) = load_entry L False vs st line"
proof (cases "\<exists>h v t p pr. line = Some (JArr [h, v, t, p, pr])")
  case True
  then obtain h v t p pr where l: "line = Some (JArr [h, v, t, p, pr])" by blast
  show ?thesis unfolding l
    by (simp add: map_timestamp_def load_entry_def load_parts_def split: option.splits json.splits)
next
  case False
  then have "map_timestamp f line = line"
    by (auto simp: map_timestamp_def split: option.splits json.splits list.splits)
  then show ?thesis by simp
qed

lemma load_entry_map_proofs:
  "load_entry L vh vs st (map_proofs f line) = load_entry L vh vs st line"
proof (cases "\<exists>h v t p pr. line = Some (JArr [h, v, t, p, pr])")
  case True
  then obtain h v t p pr where l: "line = Some (JArr [h, v, t, p, pr])" by blast
  show ?thesis unfolding l
    by (simp add: map_proofs_def load_entry_def load_parts_def split: option.splits json.splits)
next
  case False
  then have "map_proofs f line = line"
    by (auto simp: map_proofs_def split: option.splits json.splits list.splits)
  then show ?thesis by simp
qed

lemma load_entries_map_version:
  "load_entries L False vs st (map (map_version f) lines) = load_entries L False vs st lines"
  by (induction lines arbitrary: st) (simp_all add: load_entry_map_version split: sum.splits)

lemma load_entries_map_timestamp:
  "load_entries L False vs st (map (map_timestamp f) lines) = load_entries L False vs st lines"
  by (induction lines arbitrary: st) (simp_all add: load_entry_map_timestamp split: sum.splits)

lemma load_entries_map_proofs:
  "load_entries L vh vs st (map (map_proofs f) lines) = load_entries L vh vs st lines"
  by (induction lines arbitrary: st) (simp_all add: load_entry_map_proofs split: sum.splits)

lemma load_log_entries_cong:
  "(\<And>st. load_entries L vh vs st lines = load_entries L vh vs st lines') \<Longrightarrow>
   load_log L vh vs (header # lines) = load_log L vh vs (header # lines')"
  by (simp add: load_log_def split: option.splits json.splits list.splits)

section \<open>The example history\<close>

lemma example_patch_replace:
  "apply_patch example_lib doc
     (JArr [JObj [(''op'', JStr ''replace''), (''path'', JStr []), (''value'', v)]]) = Some v"
  by (simp add: example_lib_def example_apply_patch_def patch_op_def dict_get_def)

lemma example_patch_empty: "apply_patch example_lib doc (JArr []) = Some doc"
  by (simp add: example_lib_def example_apply_patch_def)

lemma example_patch_controller:
  "apply_patch example_lib (JObj example_doc)
     (JArr [JObj [(''op'', JStr ''add''), (''path'', JStr ''/controller''), (''value'', JInt 5)]]) =
   Some (JObj [(''id'', JStr example_id), (''controller'', JInt 5)])"
  by (simp add: example_lib_def example_apply_patch_def patch_op_def dict_get_def example_doc_def)

lemma example_id_parts:
  "split_str (CHR '':'') example_id = [''did'', ''webnext'', ''example.com'', ''ff4c2yf5ga75mjnl3ww3vo5u'']"
  by (simp add: example_id_def)

lemma example_id_get: "dict_get example_doc ''id'' = Some (JStr example_id)"
  by (simp add: example_doc_def dict_get_def)

lemma example_canonical:
  "str_replace example_id ''did:webnext:example.com:{{SCID}}'' (canonicalize (JObj example_doc)) =
   canonicalize (JObj [(''id'', JStr ''did:webnext:example.com:{{SCID}}'')])"
  by (simp add: example_doc_def example_id_def str_replace_def jcs_defs)

lemma example_canonical_ascii:
  "is_ascii (canonicalize (JObj example_doc))"
  "is_ascii (canonicalize (JObj [(''id'', JStr ''did:webnext:example.com:{{SCID}}'')]))"
  by (simp_all add: example_doc_def example_id_def is_ascii_def jcs_defs)

lemma example_scid:
  "take 24 (ascii_lower (b32encode (sha256 (utf8
     (canonicalize (JObj [(''id'', JStr ''did:webnext:example.com:{{SCID}}'')])))))) =
   ''ff4c2yf5ga75mjnl3ww3vo5u''"
  unfolding sha256_genesis by (simp add: b32_defs)

lemma example_loads:
  "json_loads (str_replace example_id example_id (json_dumps (JObj example_doc))) =
   Inr (JObj example_doc)"
proof -
  have "parse_value (Suc (Suc (Suc 0)))
      (str_replace example_id example_id (json_dumps (JObj example_doc))) =
      Inr (JObj example_doc, [])"
    by (simp add: example_doc_def example_id_def str_replace_def dumps_str_def dumps_char_def
        short_escape_def ord_def skip_ws_def is_ws_def starts_with_def cons_char_def)
  then show ?thesis
    by (rule json_loads_parse_value) (simp add: skip_ws_def)
qed

lemma example_update_scid:
  "update_scid (JObj example_doc) None = Inr (example_id, JObj example_doc)"
proof -
  have ver: "scid_version ''ff4c2yf5ga75mjnl3ww3vo5u'' = Inr 1"
    by (simp add: scid_version_def py_isdigit_def is_digit_def ord_def)
  have upd: "''did:webnext:example.com:ff4c2yf5ga75mjnl3ww3vo5u'' = example_id"
    by (simp add: example_id_def)
  show ?thesis
    unfolding update_scid_def
    by (simp add: Let_def example_id_get example_id_parts ver PLACEHOLDER_def example_canonical
        example_canonical_ascii example_scid upd example_loads loads_result_def
        del: canonicalize.simps json_dumps.simps)
qed

lemma example_no_members:
  "dict_get example_doc ''controller'' = None"
  "dict_get example_doc ''verificationMethod'' = None"
  "dict_get example_doc ''authentication'' = None"
  "dict_get example_doc ''proof'' = None"
  by (simp_all add: example_doc_def dict_get_def)

lemma example_base_hash:
  "format_hash (sha256 (utf8 BASE_PROTO)) = ''zQmekt4YnthWV8EdLx2cQE6Wfi7J6j6Z16GFAZbTaU4jB55''"
  unfolding sha256_base_proto by (rule format_hash_base_proto)

lemma example_entry1_hash:
  "log_line_hash (JStr ''zQmekt4YnthWV8EdLx2cQE6Wfi7J6j6Z16GFAZbTaU4jB55'') (JInt 5)
     (JStr ''2024-01-02T00:00:00Z'')
     (JArr [JObj [(''op'', JStr ''replace''), (''path'', JStr []), (''value'', JObj example_doc)]]) =
   ''zQmS8xYbmFewTU9TDZvbYcskS41RZ2YZ52Ga4z4pAZrT6af''"
  unfolding log_line_hash_def example_doc_def example_id_def sha256_entry1
  by (rule format_hash_entry1)

lemma example_entry2_hash:
  "log_line_hash (JStr ''zQmS8xYbmFewTU9TDZvbYcskS41RZ2YZ52Ga4z4pAZrT6af'') (JInt 3)
     (JStr ''2024-01-01T00:00:00Z'') (JArr []) =
   ''zQmXCCatWFUCii9sabHtYHsSP2Xyb58ioXokPJobAc8H5mL''"
  unfolding log_line_hash_def sha256_entry2 by (rule format_hash_entry2)

lemma example_entry3_hash:
  "log_line_hash (JStr ''zQmS8xYbmFewTU9TDZvbYcskS41RZ2YZ52Ga4z4pAZrT6af'') (JInt 2)
     (JStr ''2024-01-03T00:00:00Z'')
     (JArr [JObj [(''op'', JStr ''add''), (''path'', JStr ''/controller''), (''value'', JInt 5)]]) =
   ''zQmWRnk44bkPKLGv485wioo3ywr6N3vepjFRMxGrRfkZzS9''"
  unfolding log_line_hash_def sha256_entry3 by (rule format_hash_entry3)

lemma example_entry1_loads:
  "load_entry example_lib vh vs init_state (Some example_entry1) =
     Inr ((1, JStr ''zQmS8xYbmFewTU9TDZvbYcskS41RZ2YZ52Ga4z4pAZrT6af'', JObj example_doc),
          \<lparr>st_index = 2, st_doc = JObj example_doc,
           st_prev_hash = JStr ''zQmS8xYbmFewTU9TDZvbYcskS41RZ2YZ52Ga4z4pAZrT6af'',
           st_prev_controllers = [JStr example_id], st_prev_auth_keys = [],
           st_doc_id = JStr example_id\<rparr>)"
  unfolding example_entry1_def load_entry_parts
  by (simp add: load_parts_def init_state_def example_patch_replace example_base_hash
      example_entry1_hash example_id_get check_doc_id_def example_update_scid
      controllers_of_def check_signatures_def load_auth_keys_def proofs_of_def
      example_no_members)

lemma example_entry2_loads:
  "load_entry example_lib vh vs
     \<lparr>st_index = 2, st_doc = JObj example_doc,
      st_prev_hash = JStr ''zQmS8xYbmFewTU9TDZvbYcskS41RZ2YZ52Ga4z4pAZrT6af'',
      st_prev_controllers = [JStr example_id], st_prev_auth_keys = [],
      st_doc_id = JStr example_id\<rparr>
     (Some (JArr [JStr ''zQmXCCatWFUCii9sabHtYHsSP2Xyb58ioXokPJobAc8H5mL'', JInt 3,
                  JStr ''2024-01-01T00:00:00Z'', JArr [], proofs])) =
     Inr ((2, JStr ''zQmXCCatWFUCii9sabHtYHsSP2Xyb58ioXokPJobAc8H5mL'', JObj example_doc),
          \<lparr>st_index = 3, st_doc = JObj example_doc,
           st_prev_hash = JStr ''zQmXCCatWFUCii9sabHtYHsSP2Xyb58ioXokPJobAc8H5mL'',
           st_prev_controllers = [JStr example_id], st_prev_auth_keys = [],
           st_doc_id = JStr example_id\<rparr>)"
  unfolding load_entry_parts
  by (simp add: load_parts_def example_patch_empty example_entry2_hash example_id_get
      check_doc_id_def controllers_of_def check_signatures_def load_auth_keys_def proofs_of_def
      example_no_members)

lemma example_entry3_fails:
  "load_entry example_lib vh vs
     \<lparr>st_index = 2, st_doc = JObj example_doc,
      st_prev_hash = JStr ''zQmS8xYbmFewTU9TDZvbYcskS41RZ2YZ52Ga4z4pAZrT6af'',
      st_prev_controllers = [JStr example_id], st_prev_auth_keys = [],
      st_doc_id = JStr example_id\<rparr>
     (Some example_entry3) =
     Inl (RuntimeError ''Invalid log: invalid controllers'')"
  unfolding example_entry3_def load_entry_parts
  by (simp add: load_parts_def example_patch_controller example_entry3_hash dict_get_def
      check_doc_id_def controllers_of_def)

lemma example_history_loads:
  "load_log example_lib vh vs example_history =
     ([(1, JStr ''zQmS8xYbmFewTU9TDZvbYcskS41RZ2YZ52Ga4z4pAZrT6af'', JObj example_doc),
       (2, JStr ''zQmXCCatWFUCii9sabHtYHsSP2Xyb58ioXokPJobAc8H5mL'', JObj example_doc)], None)"
  by (simp add: load_log_def example_history_def example_header_def HISTORY_PROTO_def
      BASE_PROTO_def METHOD_def example_entry1_loads example_entry2_def example_entry2_loads)

lemma example_history_controller_fails:
  "load_log example_lib vh vs example_history_controller =
     ([(1, JStr ''zQmS8xYbmFewTU9TDZvbYcskS41RZ2YZ52Ga4z4pAZrT6af'', JObj example_doc)],
      Some (RuntimeError ''Invalid log: invalid controllers''))"
  by (simp add: load_log_def example_history_controller_def example_header_def HISTORY_PROTO_def
      BASE_PROTO_def METHOD_def example_entry1_loads example_entry3_fails)

section \<open>Facts about \<open>verify_proof\<close>\<close>

lemma dict_get_dict_set:
  "dict_get (dict_set d k v) k' = (if k' = k then Some v else dict_get d k')"
  by (induction d) (auto simp: dict_get_def)

lemma dict_del_dict_set: "dict_get d k = None \<Longrightarrow> dict_del (dict_set d k v) k = d"
  by (induction d) (auto simp: dict_get_def dict_del_def split: if_splits)

lemma verify_proof_None:
  "verify_proof L document proof method = None \<longleftrightarrow>
     dict_get proof ''type'' = Some (JStr ''DataIntegrityProof'') \<and>
     dict_get proof ''proofPurpose'' = Some (JStr ''authentication'') \<and>
     dict_get proof ''cryptosuite'' = Some (JStr ''eddsa-jcs-2022'') \<and>
     dict_get document ''proof'' \<noteq> None \<and>
     (\<exists>m mb key_mc key_bytes key pv signature.
        method = JObj m \<and> dict_get m ''publicKeyMultibase'' = Some (JStr mb) \<and>
        multibase_decode L mb = Some key_mc \<and>
        multicodec_unwrap L key_mc = Some (''ed25519-pub'', key_bytes) \<and>
        from_public_bytes L key_bytes = Some key \<and>
        dict_get proof ''proofValue'' = Some (JStr pv) \<and>
        multibase_decode L pv = Some signature \<and>
        key_verify_signature L key
          (sig_input (dict_del document ''proof'') (dict_del proof ''proofValue'')) signature)"
  unfolding verify_proof_def
  by (auto split: json.splits option.splits if_splits)

section \<open>The claims about \<open>load_log\<close>\<close>

lemma load_entries_chain_prefix:
  "load_entries L True vs st lines = (ys, r) \<Longrightarrow>
   chain_ok (st_prev_hash st) (take (length ys) lines)"
proof (induction lines arbitrary: st ys r)
  case Nil
  then show ?case by simp
next
  case (Cons line lines)
  show ?case
  proof (cases "load_entry L True vs st line")
    case (Inl e)
    with Cons.prems show ?thesis by simp
  next
    case (Inr a)
    obtain y st' where a: "a = (y, st')" by (cases a)
    from Inr a obtain h v t p pr where l: "line = Some (JArr [h, v, t, p, pr])"
      using load_entry_Inr_line by blast
    from Inr a l have "load_parts L True vs st h v t p pr = Inr (y, st')"
      by (simp add: load_entry_parts)
    then have hh: "h = JStr (log_line_hash (st_prev_hash st) v t p)" and s: "st_prev_hash st' = h"
      unfolding load_parts_Inr by auto
    obtain ys' r' where rest: "load_entries L True vs st' lines = (ys', r')"
      by (cases "load_entries L True vs st' lines")
    with Cons.prems Inr a have ys: "ys = y # ys'" by simp
    from Cons.IH [OF rest] s hh l ys show ?thesis by simp
  qed
qed

lemma load_entries_all:
  "load_entries L vh vs st lines = (ys, None) \<Longrightarrow> length ys = length lines"
proof (induction lines arbitrary: st ys)
  case Nil
  then show ?case by simp
next
  case (Cons line lines)
  then show ?case by (auto split: sum.splits prod.splits)
qed

lemma load_log_chain_prefix:
  "load_log L True vs (header # lines) = (ys, r) \<Longrightarrow>
   chain_ok (JStr (format_hash (sha256 (utf8 BASE_PROTO)))) (take (length ys) lines)"
  using load_log_cases [of L True vs header lines]
    load_entries_chain_prefix [of L vs init_state lines ys r]
  by (auto simp: init_state_def)

lemma load_log_all:
  "load_log L vh vs (header # lines) = (ys, None) \<Longrightarrow> length ys = length lines"
  using load_log_cases [of L vh vs header lines] load_entries_all [of L vh vs init_state lines ys]
  by auto

text \<open>
  C1 (as amended). With hash verification on, the entries that \<open>load_log\<close> yields form
  a hash chain: the \<open>log_hash\<close> of each is \<open>log_line_hash\<close> of the previous \<open>log_hash\<close>
  (the hash of the protocol string before entry 1) and of its own \<open>version_id\<close>,
  \<open>timestamp\<close> and \<open>patch\<close>; a history that is accepted is yielded whole, so a history
  with an entry whose stored hash differs is not accepted. The exception is
  \<open>hash mismatch\<close> when the patch of that entry applies and gives an object: the
  patch is applied, and the type of the document checked, before the hash is.
\<close>

theorem load_log_hash_chain:
  "(load_log L True vs (header # lines) = (ys, r) \<longrightarrow>
      chain_ok (JStr (format_hash (sha256 (utf8 BASE_PROTO)))) (take (length ys) lines) \<and>
      (r = None \<longrightarrow> length ys = length lines)) \<and>
   (\<not> chain_ok (JStr (format_hash (sha256 (utf8 BASE_PROTO)))) lines \<longrightarrow>
      (\<exists>e. snd (load_log L True vs (header # lines)) = Some e)) \<and>
   (apply_patch L (st_doc st) p = Some (JObj d) \<and>
    h \<noteq> JStr (log_line_hash (st_prev_hash st) v t p) \<longrightarrow>
      load_entries L True vs st (Some (JArr [h, v, t, p, pr]) # rest) =
        ([], Some (RuntimeError ''Invalid log: hash mismatch'')))"
proof (intro conjI impI)
  assume a: "load_log L True vs (header # lines) = (ys, r)"
  from load_log_chain_prefix [OF a]
  show "chain_ok (JStr (format_hash (sha256 (utf8 BASE_PROTO)))) (take (length ys) lines)" .
  assume "r = None"
  with a load_log_all [of L True vs header lines ys] show "length ys = length lines" by simp
next
  assume n: "\<not> chain_ok (JStr (format_hash (sha256 (utf8 BASE_PROTO)))) lines"
  obtain ys r where a: "load_log L True vs (header # lines) = (ys, r)"
    by (cases "load_log L True vs (header # lines)")
  have "r \<noteq> None"
  proof
    assume "r = None"
    with a load_log_all [of L True vs header lines ys] load_log_chain_prefix [OF a] n
    show False by simp
  qed
  with a show "\<exists>e. snd (load_log L True vs (header # lines)) = Some e" by auto
next
  assume "apply_patch L (st_doc st) p = Some (JObj d) \<and>
    h \<noteq> JStr (log_line_hash (st_prev_hash st) v t p)"
  then show "load_entries L True vs st (Some (JArr [h, v, t, p, pr]) # rest) =
      ([], Some (RuntimeError ''Invalid log: hash mismatch''))"
    using load_log_hash_mismatch [of L st p d h v t vs pr rest] by simp
qed

text \<open>
  The example history is accepted, so its two entries form a chain; with another
  \<open>log_hash\<close> its first entry raises \<open>hash mismatch\<close>.
\<close>

theorem load_log_hash_chain_witness:
  "chain_ok (JStr (format_hash (sha256 (utf8 BASE_PROTO))))
     [Some example_entry1, Some example_entry2] \<and>
   load_entries example_lib True True init_state
     [Some (JArr [JStr ''zQmbogus'', JInt 5, JStr ''2024-01-02T00:00:00Z'',
        JArr [JObj [(''op'', JStr ''replace''), (''path'', JStr []), (''value'', JObj example_doc)]],
        JArr []])] =
     ([], Some (RuntimeError ''Invalid log: hash mismatch''))"
proof -
  have "load_log example_lib True True (Some example_header # [Some example_entry1, Some example_entry2]) =
      ([(1, JStr ''zQmS8xYbmFewTU9TDZvbYcskS41RZ2YZ52Ga4z4pAZrT6af'', JObj example_doc),
        (2, JStr ''zQmXCCatWFUCii9sabHtYHsSP2Xyb58ioXokPJobAc8H5mL'', JObj example_doc)], None)"
    using example_history_loads [of True True] by (simp add: example_history_def)
  moreover have "apply_patch example_lib (st_doc init_state)
      (JArr [JObj [(''op'', JStr ''replace''), (''path'', JStr []), (''value'', JObj example_doc)]]) =
      Some (JObj example_doc)"
    by (rule example_patch_replace)
  moreover have "JStr ''zQmbogus'' \<noteq> JStr (log_line_hash (st_prev_hash init_state) (JInt 5)
      (JStr ''2024-01-02T00:00:00Z'')
      (JArr [JObj [(''op'', JStr ''replace''), (''path'', JStr []), (''value'', JObj example_doc)]]))"
    by (simp add: init_state_def example_base_hash example_entry1_hash)
  ultimately show ?thesis
    using load_log_hash_chain
      [of example_lib True "Some example_header" "[Some example_entry1, Some example_entry2]"
          "[(1, JStr ''zQmS8xYbmFewTU9TDZvbYcskS41RZ2YZ52Ga4z4pAZrT6af'', JObj example_doc),
            (2, JStr ''zQmXCCatWFUCii9sabHtYHsSP2Xyb58ioXokPJobAc8H5mL'', JObj example_doc)]"
          None init_state
          "JArr [JObj [(''op'', JStr ''replace''), (''path'', JStr []), (''value'', JObj example_doc)]]"
          example_doc "JStr ''zQmbogus''" "JInt 5" "JStr ''2024-01-02T00:00:00Z''"
          "JArr []" "[]"]
    by simp
qed

text \<open>
  C1 as stated fails: an entry with a wrong \<open>log_hash\<close> and an empty patch, first in
  the history, leaves the document \<open>None\<close>, and the exception is \<open>invalid document\<close>,
  not \<open>hash mismatch\<close>.
\<close>

theorem load_log_hash_mismatch_counterexample:
  "load_log example_lib True True
     [Some example_header,
      Some (JArr [JStr ''bogus'', JInt 1, JStr ''2024-01-01T00:00:00Z'', JArr [], JArr []])] =
     ([], Some (RuntimeError ''Invalid log: invalid document'')) \<and>
   JStr ''bogus'' \<noteq>
     JStr (log_line_hash (JStr (format_hash (sha256 (utf8 BASE_PROTO)))) (JInt 1)
            (JStr ''2024-01-01T00:00:00Z'') (JArr []))"
  by (simp add: load_log_def example_header_def HISTORY_PROTO_def BASE_PROTO_def METHOD_def
      load_entry_parts load_parts_def init_state_def example_patch_empty log_line_hash_def
      format_hash_def)

text \<open>
  C2. \<open>load_log\<close> never reads the fifth part of a line: the proofs it verifies are
  taken from the \<open>proof\<close> member of the document. Whatever stands in place of the
  proofs of every entry, the outcome of the traversal is the same, with signature
  verification on as with it off.
\<close>

theorem load_log_ignores_proofs:
  "load_log L vh vs (header # map (map_proofs f) lines) = load_log L vh vs (header # lines)"
  by (rule load_log_entries_cong) (rule load_entries_map_proofs)

text \<open>The example history with every list of proofs replaced by a string.\<close>

theorem load_log_ignores_proofs_witness:
  "load_log example_lib True True
     (Some example_header #
      map (map_proofs (\<lambda>proofs. JStr ''no proof'')) [Some example_entry1, Some example_entry2]) =
     ([(1, JStr ''zQmS8xYbmFewTU9TDZvbYcskS41RZ2YZ52Ga4z4pAZrT6af'', JObj example_doc),
       (2, JStr ''zQmXCCatWFUCii9sabHtYHsSP2Xyb58ioXokPJobAc8H5mL'', JObj example_doc)], None)"
  using load_log_ignores_proofs
    [of example_lib True True "Some example_header" "\<lambda>proofs. JStr ''no proof''"
        "[Some example_entry1, Some example_entry2]"]
    example_history_loads [of True True]
  by (simp only: example_history_def)

text \<open>
  The example history has an empty list of proofs in both entries, and is accepted
  with hash and signature verification on.
\<close>

theorem load_log_missing_proof_accepted:
  "load_log example_lib True True
     [Some example_header,
      Some (JArr [JStr ''zQmS8xYbmFewTU9TDZvbYcskS41RZ2YZ52Ga4z4pAZrT6af'', JInt 5,
        JStr ''2024-01-02T00:00:00Z'',
        JArr [JObj [(''op'', JStr ''replace''), (''path'', JStr []), (''value'', JObj example_doc)]],
        JArr []]),
      Some (JArr [JStr ''zQmXCCatWFUCii9sabHtYHsSP2Xyb58ioXokPJobAc8H5mL'', JInt 3,
        JStr ''2024-01-01T00:00:00Z'', JArr [], JArr []])] =
     ([(1, JStr ''zQmS8xYbmFewTU9TDZvbYcskS41RZ2YZ52Ga4z4pAZrT6af'', JObj example_doc),
       (2, JStr ''zQmXCCatWFUCii9sabHtYHsSP2Xyb58ioXokPJobAc8H5mL'', JObj example_doc)], None)"
  using example_history_loads [of True True]
  by (simp only: example_history_def example_entry1_def example_entry2_def)

text \<open>
  C7 (as amended). The version number that \<open>load_log\<close> yields with an entry is the
  position of the entry: 1 for entry 1, and one more than its predecessor's for every
  later entry. The \<open>version_id\<close> recorded in the line is not compared with it: with
  hash verification off the outcome of the traversal is the same whatever stands in
  place of every \<open>version_id\<close>, and with hash verification on the \<open>version_id\<close> is only
  fed to the hash.
\<close>

theorem load_log_version_numbers:
  "(load_log L vh vs lines = (ys, r) \<longrightarrow> map fst ys = [1 ..< Suc (length ys)]) \<and>
   load_log L False vs (header # map (map_version f) lines') =
     load_log L False vs (header # lines')"
  using load_log_index [of L vh vs lines ys r]
    load_log_entries_cong [of L False vs "map (map_version f) lines'" lines' header]
    load_entries_map_version [of L vs _ f lines']
  by blast

theorem load_log_version_numbers_witness:
  "map fst (fst (load_log example_lib True True example_history)) = [1, 2] \<and>
   load_log example_lib False True
     (Some example_header #
      map (map_version (\<lambda>version_id. JNull)) [Some example_entry1, Some example_entry2]) =
     ([(1, JStr ''zQmS8xYbmFewTU9TDZvbYcskS41RZ2YZ52Ga4z4pAZrT6af'', JObj example_doc),
       (2, JStr ''zQmXCCatWFUCii9sabHtYHsSP2Xyb58ioXokPJobAc8H5mL'', JObj example_doc)], None)"
proof -
  have u: "[1 ..< Suc (Suc (Suc 0))] = [1, 2]"
    by (simp add: upt_rec)
  from load_log_version_numbers
    [of example_lib True True example_history
        "fst (load_log example_lib True True example_history)"
        "snd (load_log example_lib True True example_history)"
        "Some example_header" "\<lambda>version_id. JNull"
        "[Some example_entry1, Some example_entry2]"]
  have 1: "map fst (fst (load_log example_lib True True example_history)) =
      [1 ..< Suc (length (fst (load_log example_lib True True example_history)))]"
    and 2: "load_log example_lib False True
      (Some example_header #
       map (map_version (\<lambda>version_id. JNull)) [Some example_entry1, Some example_entry2]) =
      load_log example_lib False True
        (Some example_header # [Some example_entry1, Some example_entry2])"
    by simp_all
  from 1 u have "map fst (fst (load_log example_lib True True example_history)) = [1, 2]"
    by (simp add: example_history_loads)
  moreover from 2 example_history_loads [of False True]
  have "load_log example_lib False True
      (Some example_header #
       map (map_version (\<lambda>version_id. JNull)) [Some example_entry1, Some example_entry2]) =
      ([(1, JStr ''zQmS8xYbmFewTU9TDZvbYcskS41RZ2YZ52Ga4z4pAZrT6af'', JObj example_doc),
        (2, JStr ''zQmXCCatWFUCii9sabHtYHsSP2Xyb58ioXokPJobAc8H5mL'', JObj example_doc)], None)"
    by (simp only: example_history_def)
  ultimately show ?thesis by simp
qed

text \<open>
  C7 as stated fails: the entries of the example history record the version
  numbers 5 and 3, and the history is accepted with hash and signature verification on.
\<close>

theorem load_log_version_id_counterexample:
  "load_log example_lib True True example_history =
     ([(1, JStr ''zQmS8xYbmFewTU9TDZvbYcskS41RZ2YZ52Ga4z4pAZrT6af'', JObj example_doc),
       (2, JStr ''zQmXCCatWFUCii9sabHtYHsSP2Xyb58ioXokPJobAc8H5mL'', JObj example_doc)], None) \<and>
   (\<exists>h1 t1 p1 pr1 h2 t2 p2 pr2.
      example_history =
        [Some example_header, Some (JArr [h1, JInt 5, t1, p1, pr1]),
         Some (JArr [h2, JInt 3, t2, p2, pr2])])"
  using example_history_loads [of True True]
  by (simp add: example_history_def example_entry1_def example_entry2_def)

text \<open>
  C8 (as amended). \<open>load_log\<close> does not compare timestamps: the \<open>timestamp\<close> of an
  entry is only fed to the hash of the entry. With hash verification off the outcome of
  the traversal is the same whatever stands in place of every \<open>timestamp\<close>.
\<close>

theorem load_log_ignores_timestamps:
  "load_log L False vs (header # map (map_timestamp f) lines) = load_log L False vs (header # lines)"
  by (rule load_log_entries_cong) (rule load_entries_map_timestamp)

theorem load_log_ignores_timestamps_witness:
  "load_log example_lib False True
     (Some example_header #
      map (map_timestamp (\<lambda>timestamp. JStr ''1970-01-01T00:00:00Z''))
        [Some example_entry1, Some example_entry2]) =
     ([(1, JStr ''zQmS8xYbmFewTU9TDZvbYcskS41RZ2YZ52Ga4z4pAZrT6af'', JObj example_doc),
       (2, JStr ''zQmXCCatWFUCii9sabHtYHsSP2Xyb58ioXokPJobAc8H5mL'', JObj example_doc)], None)"
  using load_log_ignores_timestamps
    [of example_lib True "Some example_header" "\<lambda>timestamp. JStr ''1970-01-01T00:00:00Z''"
        "[Some example_entry1, Some example_entry2]"]
    example_history_loads [of False True]
  by (simp only: example_history_def)

text \<open>
  C8 as stated fails: in the example history the timestamp of entry 2 is a day before
  that of entry 1, and the history is accepted with hash and signature verification on.
\<close>

theorem load_log_timestamp_counterexample:
  "load_log example_lib True True example_history =
     ([(1, JStr ''zQmS8xYbmFewTU9TDZvbYcskS41RZ2YZ52Ga4z4pAZrT6af'', JObj example_doc),
       (2, JStr ''zQmXCCatWFUCii9sabHtYHsSP2Xyb58ioXokPJobAc8H5mL'', JObj example_doc)], None) \<and>
   (\<exists>h1 v1 p1 pr1 h2 v2 p2 pr2.
      example_history =
        [Some example_header,
         Some (JArr [h1, v1, JStr ''2024-01-02T00:00:00Z'', p1, pr1]),
         Some (JArr [h2, v2, JStr ''2024-01-01T00:00:00Z'', p2, pr2])])"
  using example_history_loads [of True True]
  by (simp add: example_history_def example_entry1_def example_entry2_def)

lemma verify_proofs_unresolved:
  "JObj proof \<in> set ps \<Longrightarrow> dict_get proof ''verificationMethod'' = Some (JStr m) \<Longrightarrow>
   dict_get keys (if starts_with m ''#'' then cid @ m else m) = None \<Longrightarrow>
   verify_proofs L d cid keys ps \<noteq> None"
  by (induction ps) (auto simp: Let_def split: json.splits option.splits if_splits)

lemma check_signatures_Inr:
  "check_signatures L st d cid cs = Inr ak \<longleftrightarrow>
     load_auth_keys d cid = Inr ak \<and>
     JStr cid \<in> set (if st_index st = 1 then cs else st_prev_controllers st) \<and>
     (\<exists>ps. proofs_of d = Inr ps \<and>
        verify_proofs L d cid (if st_index st = 1 then ak else st_prev_auth_keys st) ps = None)"
  by (auto simp: check_signatures_def Let_def split: sum.splits option.splits if_splits)

text \<open>
  C3. What \<open>load_log\<close> verifies with signature verification on are the proofs in the
  \<open>proof\<close> member of the document of an entry (the proofs in the fifth part of the
  line are not read). Those of entry 1 are verified against the authentication keys of
  that document itself, those of a later entry against the authentication keys that
  the entry before left in the state, which are the keys of the document of that
  entry; a proof among them whose verification method is not in that key set makes the
  verification fail.
\<close>

theorem load_log_proof_key_set:
  "(load_parts L vh True st h v t p pr = Inr (y, st') \<longrightarrow>
      (\<exists>d cid ps. st_doc st' = JObj d \<and> st_doc_id st' = JStr cid \<and>
         load_auth_keys d cid = Inr (st_prev_auth_keys st') \<and> proofs_of d = Inr ps \<and>
         verify_proofs L d cid
           (if st_index st = 1 then st_prev_auth_keys st' else st_prev_auth_keys st) ps = None)) \<and>
   (JObj proof \<in> set ps \<and> dict_get proof ''verificationMethod'' = Some (JStr m) \<and>
    dict_get keys (if starts_with m ''#'' then cid @ m else m) = None \<longrightarrow>
      verify_proofs L d cid keys ps \<noteq> None)"
proof (intro conjI impI)
  assume "load_parts L vh True st h v t p pr = Inr (y, st')"
  then obtain d cid cs ak where
    c: "check_signatures L st d cid cs = Inr ak"
    and s: "st' = \<lparr>st_index = st_index st + 1, st_doc = JObj d, st_prev_hash = h,
               st_prev_controllers = cs, st_prev_auth_keys = ak, st_doc_id = JStr cid\<rparr>"
    unfolding load_parts_Inr by auto
  from c obtain ps where "load_auth_keys d cid = Inr ak" "proofs_of d = Inr ps"
    "verify_proofs L d cid (if st_index st = 1 then ak else st_prev_auth_keys st) ps = None"
    unfolding check_signatures_Inr by auto
  with s show "\<exists>d cid ps. st_doc st' = JObj d \<and> st_doc_id st' = JStr cid \<and>
         load_auth_keys d cid = Inr (st_prev_auth_keys st') \<and> proofs_of d = Inr ps \<and>
         verify_proofs L d cid
           (if st_index st = 1 then st_prev_auth_keys st' else st_prev_auth_keys st) ps = None"
    by auto
next
  assume "JObj proof \<in> set ps \<and> dict_get proof ''verificationMethod'' = Some (JStr m) \<and>
    dict_get keys (if starts_with m ''#'' then cid @ m else m) = None"
  then show "verify_proofs L d cid keys ps \<noteq> None"
    using verify_proofs_unresolved [of "proof" ps m keys cid L d] by blast
qed

text \<open>
  The example document with a key and a proof, as the document of an entry after a
  state that holds the same key: the entry is accepted by a library that accepts the
  signature, so the proof is verified against the key of the state. The same proof is
  refused against an empty key set.
\<close>

theorem load_log_proof_key_set_witness:
  "verify_proofs (example_lib\<lparr>key_verify_signature := (\<lambda>key message signature. True)\<rparr>)
     example_signed_doc example_id [(example_id @ ''#key-1'', example_method)]
     [JObj example_proof] = None \<and>
   verify_proofs example_lib example_signed_doc example_id [] [JObj example_proof] \<noteq> None"
proof -
  let ?L = "example_lib\<lparr>key_verify_signature := (\<lambda>key message signature. True)\<rparr>"
  have ak: "load_auth_keys example_signed_doc example_id =
      Inr [(example_id @ ''#key-1'', example_method)]"
    by (simp add: load_auth_keys_def example_signed_doc_def dict_get_def
        parse_verification_method_def example_method_def starts_with_def Let_def)
  have vp: "verify_proofs ?L example_signed_doc example_id
      [(example_id @ ''#key-1'', example_method)] [JObj example_proof] = None"
  proof -
    have vm: "dict_get example_proof ''verificationMethod'' = Some (JStr ''#key-1'')"
      by (simp add: example_proof_def dict_get_def)
    have key: "dict_get [(example_id @ ''#key-1'', example_method)] (example_id @ ''#key-1'') =
        Some example_method"
      by (simp add: dict_get_def)
    have vf: "verify_proof ?L example_signed_doc example_proof example_method = None"
      unfolding verify_proof_None
      by (simp add: example_proof_def dict_get_def example_method_def example_lib_def
          example_signed_doc_def ord_def)
    show ?thesis
      by (simp add: vm key vf starts_with_def Let_def)
  qed
  have "load_parts ?L False True example_signed_state (JStr ''h'') (JInt 2)
      (JStr ''2024-01-02T00:00:00Z'') (JArr []) (JArr []) =
      Inr ((2, JStr ''h'', JObj example_signed_doc),
           \<lparr>st_index = 3, st_doc = JObj example_signed_doc, st_prev_hash = JStr ''h'',
            st_prev_controllers = [JStr example_id],
            st_prev_auth_keys = [(example_id @ ''#key-1'', example_method)],
            st_doc_id = JStr example_id\<rparr>)"
  proof -
    have idg: "dict_get example_signed_doc ''id'' = Some (JStr example_id)"
      and ctrl: "dict_get example_signed_doc ''controller'' = None"
      and pr: "proofs_of example_signed_doc = Inr [JObj example_proof]"
      by (simp_all add: example_signed_doc_def dict_get_def proofs_of_def)
    show ?thesis
      unfolding load_parts_Inr check_signatures_Inr
      by (simp add: example_signed_state_def example_patch_empty idg ctrl pr ak vp
          check_doc_id_def controllers_of_def del: verify_proofs.simps)
  qed
  with load_log_proof_key_set
    [of ?L False example_signed_state "JStr ''h''" "JInt 2" "JStr ''2024-01-02T00:00:00Z''"
        "JArr []" "JArr []" "(2, JStr ''h'', JObj example_signed_doc)"
        "\<lparr>st_index = 3, st_doc = JObj example_signed_doc, st_prev_hash = JStr ''h'',
          st_prev_controllers = [JStr example_id],
          st_prev_auth_keys = [(example_id @ ''#key-1'', example_method)],
          st_doc_id = JStr example_id\<rparr>"]
  have "\<exists>d cid ps.
      JObj example_signed_doc = JObj d \<and> JStr example_id = JStr cid \<and>
      load_auth_keys d cid = Inr [(example_id @ ''#key-1'', example_method)] \<and>
      proofs_of d = Inr ps \<and>
      verify_proofs ?L d cid (st_prev_auth_keys example_signed_state) ps = None"
    by (simp add: example_signed_state_def)
  then have 1: "verify_proofs ?L example_signed_doc example_id
      [(example_id @ ''#key-1'', example_method)] [JObj example_proof] = None"
    by (auto simp: example_signed_state_def proofs_of_def example_signed_doc_def dict_get_def
        simp del: verify_proofs.simps)
  have "dict_get example_proof ''verificationMethod'' = Some (JStr ''#key-1'')"
    by (simp add: example_proof_def dict_get_def)
  moreover have "dict_get [] (if starts_with ''#key-1'' ''#'' then example_id @ ''#key-1''
      else ''#key-1'') = None"
    by (simp add: dict_get_def)
  ultimately have 2: "verify_proofs example_lib example_signed_doc example_id []
      [JObj example_proof] \<noteq> None"
    using load_log_proof_key_set
      [of example_lib _ _ _ _ _ _ _ _ _ example_proof "[JObj example_proof]" "''#key-1''" "[]"
          example_id example_signed_doc]
    by simp
  from 1 2 show ?thesis by blast
qed

text \<open>
  The proofs of the fifth part are not verified at all: the example history, with a
  proof in entry 2 that names a key no document has, is accepted with hash and
  signature verification on.
\<close>

theorem load_log_entry_proof_unverified:
  "load_log example_lib True True
     [Some example_header, Some example_entry1,
      Some (JArr [JStr ''zQmXCCatWFUCii9sabHtYHsSP2Xyb58ioXokPJobAc8H5mL'', JInt 3,
        JStr ''2024-01-01T00:00:00Z'', JArr [],
        JArr [JObj [(''type'', JStr ''DataIntegrityProof''),
          (''cryptosuite'', JStr ''eddsa-jcs-2022''),
          (''verificationMethod'', JStr ''did:webnext:example.com:ff4c2yf5ga75mjnl3ww3vo5u#nokey''),
          (''proofPurpose'', JStr ''authentication''), (''proofValue'', JStr ''z'')]]])] =
     ([(1, JStr ''zQmS8xYbmFewTU9TDZvbYcskS41RZ2YZ52Ga4z4pAZrT6af'', JObj example_doc),
       (2, JStr ''zQmXCCatWFUCii9sabHtYHsSP2Xyb58ioXokPJobAc8H5mL'', JObj example_doc)], None)"
  by (simp add: load_log_def example_header_def HISTORY_PROTO_def BASE_PROTO_def METHOD_def
      example_entry1_loads example_entry2_loads)

lemma controllers_of_Inl:
  "controllers_of d cid = Inl e \<longleftrightarrow>
     e = RuntimeError ''Invalid log: invalid controllers'' \<and>
     ((\<exists>b. dict_get d ''controller'' = Some (JBool b)) \<or>
      (\<exists>i. dict_get d ''controller'' = Some (JInt i)) \<or>
      (\<exists>m. dict_get d ''controller'' = Some (JObj m)))"
  by (auto simp: controllers_of_def split: option.splits json.splits)

lemma load_parts_lib:
  "apply_patch L = apply_patch L' \<Longrightarrow>
   load_parts L vh False st h v t p pr = load_parts L' vh False st h v t p pr"
  unfolding load_parts_def if_False by simp

lemma load_entry_lib:
  assumes "apply_patch L = apply_patch L'"
  shows "load_entry L vh False st line = load_entry L' vh False st line"
proof (cases "\<exists>h v t p pr. line = Some (JArr [h, v, t, p, pr])")
  case True
  then obtain h v t p pr where l: "line = Some (JArr [h, v, t, p, pr])" by blast
  show ?thesis unfolding l load_entry_parts by (rule load_parts_lib [OF assms])
next
  case False
  then show ?thesis
    by (auto simp: load_entry_def split: option.splits json.splits list.splits)
qed

lemma load_entries_lib:
  "apply_patch L = apply_patch L' \<Longrightarrow>
   load_entries L vh False st lines = load_entries L' vh False st lines"
  by (induction lines arbitrary: st) (simp_all add: load_entry_lib [of L L'] split: sum.splits)

lemma load_log_lib:
  "apply_patch L = apply_patch L' \<Longrightarrow> load_log L vh False lines = load_log L' vh False lines"
  by (simp add: load_log_def load_entries_lib [of L L'] split: option.splits json.splits list.splits)

text \<open>Switching signature verification off never turns an accepted history into a rejected one.\<close>

lemma load_parts_off:
  assumes "load_parts L vh True st h v t p pr = Inr (y, st')"
  shows "load_parts L vh False (st\<lparr>st_prev_auth_keys := k\<rparr>) h v t p pr =
     Inr (y, st'\<lparr>st_prev_auth_keys := []\<rparr>)"
proof -
  from assms obtain d cid cs ak where
    a: "apply_patch L (st_doc st) p = Some (JObj d)"
      "vh \<longrightarrow> h = JStr (log_line_hash (st_prev_hash st) v t p)"
      "dict_get d ''id'' = Some (JStr cid)" "check_doc_id st d cid = None"
      "controllers_of d cid = Inr cs" "y = (st_index st, h, JObj d)"
      "st' = \<lparr>st_index = st_index st + 1, st_doc = JObj d, st_prev_hash = h,
               st_prev_controllers = cs, st_prev_auth_keys = ak, st_doc_id = JStr cid\<rparr>"
    unfolding load_parts_Inr by auto
  have "check_doc_id (st\<lparr>st_prev_auth_keys := k\<rparr>) d cid = check_doc_id st d cid"
    by (simp add: check_doc_id_def)
  with a show ?thesis
    unfolding load_parts_Inr by simp
qed

lemma load_entries_off:
  "load_entries L vh True st lines = (ys, None) \<Longrightarrow>
   load_entries L vh False (st\<lparr>st_prev_auth_keys := k\<rparr>) lines = (ys, None)"
proof (induction lines arbitrary: st ys k)
  case Nil
  then show ?case by simp
next
  case (Cons line lines)
  from Cons.prems obtain y st' where e: "load_entry L vh True st line = Inr (y, st')"
    by (auto split: sum.splits)
  then obtain h v t p pr where l: "line = Some (JArr [h, v, t, p, pr])"
    using load_entry_Inr_line by blast
  from e l have "load_parts L vh True st h v t p pr = Inr (y, st')"
    by (simp add: load_entry_parts)
  from load_parts_off [OF this, of k] l
  have e': "load_entry L vh False (st\<lparr>st_prev_auth_keys := k\<rparr>) line =
      Inr (y, st'\<lparr>st_prev_auth_keys := []\<rparr>)"
    by (simp add: load_entry_parts)
  from Cons.prems e obtain ys' where ys: "ys = y # ys'"
    and r: "load_entries L vh True st' lines = (ys', None)"
    by (auto split: prod.splits)
  from Cons.IH [OF r, of "[]"] e' ys show ?case by simp
qed

lemma load_log_off:
  "load_log L vh True lines = (ys, None) \<Longrightarrow> load_log L vh False lines = (ys, None)"
proof -
  assume a: "load_log L vh True lines = (ys, None)"
  have i: "init_state\<lparr>st_prev_auth_keys := []\<rparr> = init_state"
    by (simp add: init_state_def)
  from a obtain meta rest where l: "lines = Some (JArr [JStr HISTORY_PROTO, JStr BASE_PROTO, meta]) # rest"
    by (auto simp: load_log_def split: list.splits option.splits json.splits if_splits)
  with a have "load_entries L vh True init_state rest = (ys, None)"
    by (simp add: load_log_header)
  from load_entries_off [OF this, of "[]"] i l show ?thesis
    by (simp add: load_log_header)
qed

text \<open>
  C10 (as amended). With \<open>verify_signature\<close> false \<open>load_log\<close> parses no authentication
  key, does not look for the DID among the controllers and verifies no proof: its
  outcome does not depend on the key functions of the libraries, every history accepted
  with signature verification on is accepted with it off, and an entry is accepted
  exactly when its patch applies and gives an object, its hash matches (if hashes are
  verified), the \<open>id\<close> of the document is a string that passes the check of the id, and
  the controllers can be normalized. The normalization of the controllers is still
  performed: a document whose \<open>controller\<close> is a boolean, a number or an object is
  refused with \<open>invalid controllers\<close>.
\<close>

theorem load_log_without_signatures:
  "(apply_patch L = apply_patch L' \<longrightarrow>
      load_log L vh False lines = load_log L' vh False lines) \<and>
   (load_log L vh True lines = (ys, None) \<longrightarrow> load_log L vh False lines = (ys, None)) \<and>
   (load_parts L vh False st h v t p pr = Inr (y, st') \<longleftrightarrow>
      (\<exists>d cid cs. apply_patch L (st_doc st) p = Some (JObj d) \<and>
         (vh \<longrightarrow> h = JStr (log_line_hash (st_prev_hash st) v t p)) \<and>
         dict_get d ''id'' = Some (JStr cid) \<and> check_doc_id st d cid = None \<and>
         controllers_of d cid = Inr cs \<and>
         y = (st_index st, h, JObj d) \<and>
         st' = \<lparr>st_index = st_index st + 1, st_doc = JObj d, st_prev_hash = h,
                st_prev_controllers = cs, st_prev_auth_keys = [], st_doc_id = JStr cid\<rparr>)) \<and>
   (controllers_of d cid = Inl e \<longleftrightarrow>
      e = RuntimeError ''Invalid log: invalid controllers'' \<and>
      ((\<exists>b. dict_get d ''controller'' = Some (JBool b)) \<or>
       (\<exists>i. dict_get d ''controller'' = Some (JInt i)) \<or>
       (\<exists>m. dict_get d ''controller'' = Some (JObj m)))) \<and>
   (apply_patch L (st_doc st) p = Some (JObj d) \<and>
    (vh \<longrightarrow> h = JStr (log_line_hash (st_prev_hash st) v t p)) \<and>
    dict_get d ''id'' = Some (JStr cid) \<and> check_doc_id st d cid = None \<and>
    controllers_of d cid = Inl e \<longrightarrow>
      load_parts L vh False st h v t p pr = Inl e)"
proof (intro conjI)
  show "apply_patch L = apply_patch L' \<longrightarrow>
      load_log L vh False lines = load_log L' vh False lines"
    using load_log_lib [of L L' vh lines] by blast
  show "load_log L vh True lines = (ys, None) \<longrightarrow> load_log L vh False lines = (ys, None)"
    using load_log_off [of L vh lines ys] by blast
  show "load_parts L vh False st h v t p pr = Inr (y, st') \<longleftrightarrow>
      (\<exists>d cid cs. apply_patch L (st_doc st) p = Some (JObj d) \<and>
         (vh \<longrightarrow> h = JStr (log_line_hash (st_prev_hash st) v t p)) \<and>
         dict_get d ''id'' = Some (JStr cid) \<and> check_doc_id st d cid = None \<and>
         controllers_of d cid = Inr cs \<and>
         y = (st_index st, h, JObj d) \<and>
         st' = \<lparr>st_index = st_index st + 1, st_doc = JObj d, st_prev_hash = h,
                st_prev_controllers = cs, st_prev_auth_keys = [], st_doc_id = JStr cid\<rparr>)"
    unfolding load_parts_Inr by auto
  show "controllers_of d cid = Inl e \<longleftrightarrow>
      e = RuntimeError ''Invalid log: invalid controllers'' \<and>
      ((\<exists>b. dict_get d ''controller'' = Some (JBool b)) \<or>
       (\<exists>i. dict_get d ''controller'' = Some (JInt i)) \<or>
       (\<exists>m. dict_get d ''controller'' = Some (JObj m)))"
    by (rule controllers_of_Inl)
  show "apply_patch L (st_doc st) p = Some (JObj d) \<and>
    (vh \<longrightarrow> h = JStr (log_line_hash (st_prev_hash st) v t p)) \<and>
    dict_get d ''id'' = Some (JStr cid) \<and> check_doc_id st d cid = None \<and>
    controllers_of d cid = Inl e \<longrightarrow>
      load_parts L vh False st h v t p pr = Inl e"
    by (auto simp: load_parts_def)
qed

text \<open>
  The example history is accepted with signature verification off by a library whose
  signature check refuses every signature.
\<close>

theorem load_log_without_signatures_witness:
  "load_log (example_lib\<lparr>key_verify_signature := (\<lambda>key message signature. False)\<rparr>)
     True False example_history =
     ([(1, JStr ''zQmS8xYbmFewTU9TDZvbYcskS41RZ2YZ52Ga4z4pAZrT6af'', JObj example_doc),
       (2, JStr ''zQmXCCatWFUCii9sabHtYHsSP2Xyb58ioXokPJobAc8H5mL'', JObj example_doc)], None)"
proof -
  have "apply_patch example_lib =
      apply_patch (example_lib\<lparr>key_verify_signature := (\<lambda>key message signature. False)\<rparr>)"
    by simp
  with load_log_without_signatures
    [of example_lib "example_lib\<lparr>key_verify_signature := (\<lambda>key message signature. False)\<rparr>"
        True example_history]
  have "load_log example_lib True False example_history =
      load_log (example_lib\<lparr>key_verify_signature := (\<lambda>key message signature. False)\<rparr>)
        True False example_history"
    by blast
  with example_history_loads [of True False] show ?thesis by simp
qed

text \<open>
  C10 as stated fails: the history whose second entry adds \<open>"controller": 5\<close> has five
  parts in every line and consistent hashes, and with \<open>verify_signature\<close> false it is
  refused at that entry.
\<close>

theorem load_log_controller_counterexample:
  "load_log example_lib True False example_history_controller =
     ([(1, JStr ''zQmS8xYbmFewTU9TDZvbYcskS41RZ2YZ52Ga4z4pAZrT6af'', JObj example_doc)],
      Some (RuntimeError ''Invalid log: invalid controllers'')) \<and>
   chain_ok (JStr (format_hash (sha256 (utf8 BASE_PROTO))))
     [Some example_entry1, Some example_entry3]"
  using example_history_controller_fails [of True False]
  by (simp add: example_base_hash example_entry1_def example_entry3_def example_entry1_hash
      example_entry3_hash)

section \<open>Proofs: \<open>eddsa_sign\<close> and \<open>verify_proof\<close>\<close>

lemma eddsa_sign_Inr:
  "eddsa_sign L document kid key created challenge = Inr proof \<longleftrightarrow>
     (\<exists>doc_id. dict_get document ''id'' = Some (JStr doc_id) \<and>
        proof = dict_set (proof_options doc_id kid created challenge) ''proofValue''
          (JStr (multibase_encode L (sign_message L key
             (sig_input document (proof_options doc_id kid created challenge))))))"
  unfolding eddsa_sign_def
  by (auto simp: Let_def split: option.splits json.splits)

lemma proof_options_get:
  "dict_get (proof_options doc_id kid created challenge) ''type'' = Some (JStr ''DataIntegrityProof'')"
  "dict_get (proof_options doc_id kid created challenge) ''cryptosuite'' = Some (JStr ''eddsa-jcs-2022'')"
  "dict_get (proof_options doc_id kid created challenge) ''proofPurpose'' = Some (JStr ''authentication'')"
  "dict_get (proof_options doc_id kid created challenge) ''proofValue'' = None"
  by (simp_all add: proof_options_def dict_get_def)

lemma eddsa_sign_accepts:
  assumes sign: "eddsa_sign L document kid key created challenge = Inr proof"
    and doc_id: "dict_get document ''id'' = Some (JStr doc_id)"
    and fresh: "dict_get document ''proof'' = None"
    and mb: "dict_get m ''publicKeyMultibase'' = Some (JStr mb)"
    and dec: "multibase_decode L mb = Some key_mc"
    and unwrap: "multicodec_unwrap L key_mc = Some (''ed25519-pub'', key_bytes)"
    and pk: "from_public_bytes L key_bytes = Some pk"
    and enc: "multibase_decode L (multibase_encode L (sign_message L key
                (sig_input document (proof_options doc_id kid created challenge)))) =
              Some (sign_message L key
                (sig_input document (proof_options doc_id kid created challenge)))"
    and ok: "key_verify_signature L pk
               (sig_input document (proof_options doc_id kid created challenge))
               (sign_message L key
                  (sig_input document (proof_options doc_id kid created challenge)))"
  shows "verify_proof L (dict_set document ''proof'' x) proof (JObj m) = None"
proof -
  from sign doc_id have
    p: "proof = dict_set (proof_options doc_id kid created challenge) ''proofValue''
          (JStr (multibase_encode L (sign_message L key
             (sig_input document (proof_options doc_id kid created challenge)))))"
    unfolding eddsa_sign_Inr by auto
  have d1: "dict_del (dict_set document ''proof'' x) ''proof'' = document"
    using fresh by (rule dict_del_dict_set)
  have d2: "dict_del proof ''proofValue'' = proof_options doc_id kid created challenge"
    unfolding p by (rule dict_del_dict_set) (rule proof_options_get)
  show ?thesis
    unfolding verify_proof_None d1 d2
    using mb dec unwrap pk enc ok
    by (simp add: p dict_get_dict_set proof_options_get)
qed

lemma be_bytes_byte: "b \<in> set (be_bytes k n) \<Longrightarrow> b < 256"
  by (auto simp: be_bytes_def)

lemma state_bytes_byte: "b \<in> set (state_bytes s) \<Longrightarrow> b < 256"
  by (cases s rule: state_bytes.cases) (auto dest: be_bytes_byte)

lemma sha256_byte: "b \<in> set (sha256 m) \<Longrightarrow> b < 256"
  unfolding sha256_def by (rule state_bytes_byte)

lemma ord_char_of_bytes: "\<forall>b \<in> set bs. b < 256 \<Longrightarrow> map (ord \<circ> char_of) bs = bs"
  by (induction bs) (simp_all add: ord_def)

lemma sig_input_byte: "b \<in> set (sig_input document options) \<Longrightarrow> b < 256"
  by (auto simp: sig_input_def dest: sha256_byte)

text \<open>
  C9. \<open>verify_proof\<close> returns normally exactly when the proof has type
  \<open>DataIntegrityProof\<close>, purpose \<open>authentication\<close> and cryptosuite \<open>eddsa-jcs-2022\<close>,
  the \<open>publicKeyMultibase\<close> of the method decodes to a key of codec \<open>ed25519-pub\<close>, the
  document has a \<open>proof\<close> member, and the key accepts the decoded \<open>proofValue\<close> as a
  signature of the hash of the document without its \<open>proof\<close> member followed by the
  hash of the proof without its \<open>proofValue\<close>. \<open>eddsa_sign\<close> signs the hash of the
  document followed by the hash of the proof options, and its proof is the options
  with the signature as \<open>proofValue\<close>: when the document had no \<open>proof\<close> member, the
  document with any \<open>proof\<close> member added gives \<open>verify_proof\<close> the input that was
  signed, and the proof verifies against a method that decodes to the public key of
  the signer, for a signature scheme that accepts its own signatures and an encoding
  that decodes what it encoded.
\<close>

theorem proof_sign_verify:
  "(verify_proof L document proof method = None \<longleftrightarrow>
      dict_get proof ''type'' = Some (JStr ''DataIntegrityProof'') \<and>
      dict_get proof ''proofPurpose'' = Some (JStr ''authentication'') \<and>
      dict_get proof ''cryptosuite'' = Some (JStr ''eddsa-jcs-2022'') \<and>
      dict_get document ''proof'' \<noteq> None \<and>
      (\<exists>m mb key_mc key_bytes key pv signature.
         method = JObj m \<and> dict_get m ''publicKeyMultibase'' = Some (JStr mb) \<and>
         multibase_decode L mb = Some key_mc \<and>
         multicodec_unwrap L key_mc = Some (''ed25519-pub'', key_bytes) \<and>
         from_public_bytes L key_bytes = Some key \<and>
         dict_get proof ''proofValue'' = Some (JStr pv) \<and>
         multibase_decode L pv = Some signature \<and>
         key_verify_signature L key
           (sha256 (utf8 (canonicalize (JObj (dict_del document ''proof'')))) @
            sha256 (utf8 (canonicalize (JObj (dict_del proof ''proofValue'')))))
           signature)) \<and>
   (dict_get signed ''id'' = Some (JStr doc_id) \<and>
    dict_get signed ''proof'' = None \<and>
    dict_get vm ''publicKeyMultibase'' = Some (JStr vmb) \<and>
    multibase_decode L vmb = Some vkey_mc \<and>
    multicodec_unwrap L vkey_mc = Some (''ed25519-pub'', get_public_bytes L sk) \<and>
    from_public_bytes L (get_public_bytes L sk) = Some pk \<and>
    multibase_decode L (multibase_encode L (sign_message L sk
      (sha256 (utf8 (canonicalize (JObj signed))) @
       sha256 (utf8 (canonicalize (JObj (proof_options doc_id kid created challenge))))))) =
      Some (sign_message L sk
        (sha256 (utf8 (canonicalize (JObj signed))) @
         sha256 (utf8 (canonicalize (JObj (proof_options doc_id kid created challenge)))))) \<and>
    key_verify_signature L pk
      (sha256 (utf8 (canonicalize (JObj signed))) @
       sha256 (utf8 (canonicalize (JObj (proof_options doc_id kid created challenge)))))
      (sign_message L sk
        (sha256 (utf8 (canonicalize (JObj signed))) @
         sha256 (utf8 (canonicalize (JObj (proof_options doc_id kid created challenge)))))) \<longrightarrow>
      eddsa_sign L signed kid sk created challenge =
        Inr (dict_set (proof_options doc_id kid created challenge) ''proofValue''
           (JStr (multibase_encode L (sign_message L sk
              (sha256 (utf8 (canonicalize (JObj signed))) @
               sha256 (utf8 (canonicalize (JObj (proof_options doc_id kid created challenge))))))))) \<and>
      dict_del (dict_set signed ''proof'' x) ''proof'' = signed \<and>
      dict_del (dict_set (proof_options doc_id kid created challenge) ''proofValue'' y)
        ''proofValue'' = proof_options doc_id kid created challenge \<and>
      verify_proof L (dict_set signed ''proof'' x)
        (dict_set (proof_options doc_id kid created challenge) ''proofValue''
           (JStr (multibase_encode L (sign_message L sk
              (sha256 (utf8 (canonicalize (JObj signed))) @
               sha256 (utf8 (canonicalize (JObj (proof_options doc_id kid created challenge)))))))))
        (JObj vm) = None)"
proof -
  have 1: "verify_proof L document proof method = None \<longleftrightarrow>
      dict_get proof ''type'' = Some (JStr ''DataIntegrityProof'') \<and>
      dict_get proof ''proofPurpose'' = Some (JStr ''authentication'') \<and>
      dict_get proof ''cryptosuite'' = Some (JStr ''eddsa-jcs-2022'') \<and>
      dict_get document ''proof'' \<noteq> None \<and>
      (\<exists>m mb key_mc key_bytes key pv signature.
         method = JObj m \<and> dict_get m ''publicKeyMultibase'' = Some (JStr mb) \<and>
         multibase_decode L mb = Some key_mc \<and>
         multicodec_unwrap L key_mc = Some (''ed25519-pub'', key_bytes) \<and>
         from_public_bytes L key_bytes = Some key \<and>
         dict_get proof ''proofValue'' = Some (JStr pv) \<and>
         multibase_decode L pv = Some signature \<and>
         key_verify_signature L key
           (sha256 (utf8 (canonicalize (JObj (dict_del document ''proof'')))) @
            sha256 (utf8 (canonicalize (JObj (dict_del proof ''proofValue'')))))
           signature)"
    using verify_proof_None [of L document "proof" "method"] by (simp only: sig_input_def)
  have 2: "dict_get signed ''id'' = Some (JStr doc_id) \<Longrightarrow>
      eddsa_sign L signed kid sk created challenge =
        Inr (dict_set (proof_options doc_id kid created challenge) ''proofValue''
           (JStr (multibase_encode L (sign_message L sk
              (sig_input signed (proof_options doc_id kid created challenge))))))"
    by (simp add: eddsa_sign_def Let_def)
  have 3: "dict_get signed ''proof'' = None \<Longrightarrow>
      dict_del (dict_set signed ''proof'' x) ''proof'' = signed"
    by (rule dict_del_dict_set)
  have 4: "dict_del (dict_set (proof_options doc_id kid created challenge) ''proofValue'' y)
        ''proofValue'' = proof_options doc_id kid created challenge"
    by (rule dict_del_dict_set) (rule proof_options_get)
  note 5 = eddsa_sign_accepts [of L signed kid sk created challenge _ doc_id vm vmb vkey_mc
      "get_public_bytes L sk" pk x, OF 2]
  from 1 2 3 4 5 show ?thesis
    unfolding sig_input_def by blast
qed

text \<open>
  With the example library, the key \<open>k\<close> signs the example document, and the proof
  verifies against the example method, which carries that key.
\<close>

theorem proof_sign_verify_witness:
  "eddsa_sign example_lib example_doc ''key-1'' [107] ''2024-01-01T00:00:00Z'' ''challenge'' =
     Inr (dict_set (proof_options example_id ''key-1'' ''2024-01-01T00:00:00Z'' ''challenge'')
            ''proofValue''
            (JStr (multibase_encode example_lib (sign_message example_lib [107]
               (sig_input example_doc
                  (proof_options example_id ''key-1'' ''2024-01-01T00:00:00Z'' ''challenge'')))))) \<and>
   verify_proof example_lib (dict_set example_doc ''proof'' JNull)
     (dict_set (proof_options example_id ''key-1'' ''2024-01-01T00:00:00Z'' ''challenge'')
        ''proofValue''
        (JStr (multibase_encode example_lib (sign_message example_lib [107]
           (sig_input example_doc
              (proof_options example_id ''key-1'' ''2024-01-01T00:00:00Z'' ''challenge''))))))
     example_method = None"
proof -
  let ?opts = "proof_options example_id ''key-1'' ''2024-01-01T00:00:00Z'' ''challenge''"
  let ?msg = "sig_input example_doc ?opts"
  have m: "dict_get [(''id'', JStr ''#key-1''),
      (''publicKeyMultibase'', JStr [CHR 0xED, CHR 0x01, CHR ''k''])] ''publicKeyMultibase'' =
      Some (JStr [CHR 0xED, CHR 0x01, CHR ''k''])"
    by (simp add: dict_get_def)
  have dec: "multibase_decode example_lib [CHR 0xED, CHR 0x01, CHR ''k''] = Some [237, 1, 107]"
    by (simp add: example_lib_def ord_def)
  have unwrap: "multicodec_unwrap example_lib [237, 1, 107] =
      Some (''ed25519-pub'', get_public_bytes example_lib [107])"
    by (simp add: example_lib_def)
  have pk: "from_public_bytes example_lib (get_public_bytes example_lib [107]) = Some [107]"
    by (simp add: example_lib_def)
  have "\<forall>b \<in> set ([107] @ ?msg). b < 256"
    using sig_input_byte [of _ example_doc ?opts] by auto
  then have "map (ord \<circ> char_of) ([107] @ ?msg) = [107] @ ?msg"
    by (rule ord_char_of_bytes)
  then have enc: "multibase_decode example_lib (multibase_encode example_lib
      (sign_message example_lib [107] ?msg)) = Some (sign_message example_lib [107] ?msg)"
    by (simp add: example_lib_def)
  have ok: "key_verify_signature example_lib [107] ?msg (sign_message example_lib [107] ?msg)"
    by (simp add: example_lib_def)
  from proof_sign_verify
    [of example_lib _ _ _ example_doc example_id
        "[(''id'', JStr ''#key-1''), (''publicKeyMultibase'', JStr [CHR 0xED, CHR 0x01, CHR ''k''])]"
        "[CHR 0xED, CHR 0x01, CHR ''k'']" "[237, 1, 107]" "[107]" "[107]" "''key-1''"
        "''2024-01-01T00:00:00Z''" "''challenge''" JNull]
    example_id_get example_no_members(4) m dec unwrap pk enc ok
  show ?thesis
    unfolding sig_input_def example_method_def by blast
qed

section \<open>The history iterator\<close>

lemma iter_loop_empty: "iter_loop fuel SL vid version_time verify prev_state None [] = None"
  by (induction fuel) (simp_all add: read_line_def)

lemma iter_loop_one_line:
  assumes "load_history_line SL parts None = Inr s" and "check_version_hash SL s = None"
  shows "iter_loop (Suc (Suc fuel)) SL vid None None None None [Some parts] = Some ([s], None)"
  using assms by (simp add: read_line_def)

lemma iter_loop_time_before:
  assumes "load_history_line SL parts None = Inr s" and "T < ds_timestamp s"
  shows "iter_loop (Suc fuel) SL vid (Some T) verify None None (Some parts # rest) =
     Some ([], Some (no_state_error vid (Some T)))"
  using assms by (simp add: read_line_def)

text \<open>
  C6. A \<open>version_id\<close> cutoff that the history does not reach raises nothing: on a history
  of one line, whatever \<open>version_id\<close> is asked for, the iterator yields the state of that
  line and ends normally, so \<open>load_history\<close> returns that state. The statements after
  the loop, which raise \<open>Cannot resolve versionId\<close>, are reached only when no state
  was read, that is when the first line is later than the \<open>version_time\<close> asked for. On
  an empty history the loop never ends, whatever the fuel.
\<close>

theorem iter_history_unmet_cutoff:
  "(load_history_line SL parts None = Inr s \<and> check_version_hash SL s = None \<longrightarrow>
      iter_history (Suc (Suc fuel)) SL (Some k) None None [Some parts] = Some ([s], None)) \<and>
   (load_history_line SL parts None = Inr s \<and> T < ds_timestamp s \<longrightarrow>
      iter_history (Suc fuel) SL vid (Some T) verify (Some parts # rest) =
        Some ([], Some (no_state_error vid (Some T)))) \<and>
   iter_history fuel SL vid version_time verify [] = None"
  using iter_loop_one_line [of SL parts s fuel "Some k"]
    iter_loop_time_before [of SL parts s T fuel vid verify rest]
    iter_loop_empty [of fuel SL vid version_time verify None]
  unfolding iter_history_def by blast

text \<open>
  The history of the one line \<open>[1, 100]\<close> (version 1, written at time 100), asked for
  version 5: version 1 is yielded and no exception is raised. Asked for the time 50, it
  raises \<open>Cannot resolve versionTime\<close>.
\<close>

theorem iter_history_unmet_cutoff_witness:
  "iter_history 2 example_state_lib (Some 5) None None [Some (JArr [JInt 1, JInt 100])] =
     Some ([\<lparr>ds_version_id = 1, ds_timestamp = 100, ds_deactivated = False,
             ds_document = JNull\<rparr>], None) \<and>
   iter_history 1 example_state_lib None (Some 50) None [Some (JArr [JInt 1, JInt 100])] =
     Some ([], Some (ValueError ''Cannot resolve versionTime''))"
proof -
  have l: "load_history_line example_state_lib (JArr [JInt 1, JInt 100]) None =
      Inr \<lparr>ds_version_id = 1, ds_timestamp = 100, ds_deactivated = False, ds_document = JNull\<rparr>"
    by (simp add: example_state_lib_def)
  have c: "check_version_hash example_state_lib
      \<lparr>ds_version_id = 1, ds_timestamp = 100, ds_deactivated = False, ds_document = JNull\<rparr> = None"
    by (simp add: example_state_lib_def)
  have t: "(50 :: int) < ds_timestamp
      \<lparr>ds_version_id = 1, ds_timestamp = 100, ds_deactivated = False, ds_document = JNull\<rparr>"
    by simp
  have n: "no_state_error None (Some 50) = ValueError ''Cannot resolve versionTime''"
    by (simp add: no_state_error_def)
  from iter_history_unmet_cutoff
    [of example_state_lib "JArr [JInt 1, JInt 100]"
        "\<lparr>ds_version_id = 1, ds_timestamp = 100, ds_deactivated = False, ds_document = JNull\<rparr>"
        0 5 50 None None "[]"]
    l c t n
  show ?thesis
    by (simp add: numeral_2_eq_2)
qed

section \<open>SCID derivation\<close>

lemma net_canonical:
  "str_replace ''did:webnext:example.net:{{SCID}}'' ''did:webnext:example.net:{{SCID}}''
     (canonicalize (JObj [(''id'', JStr ''did:webnext:example.net:{{SCID}}'')])) =
   canonicalize (JObj [(''id'', JStr ''did:webnext:example.net:{{SCID}}'')])"
  by (simp add: str_replace_def jcs_defs)

lemma net_canonical_ascii:
  "is_ascii (canonicalize (JObj [(''id'', JStr ''did:webnext:example.net:{{SCID}}'')]))"
  by (simp add: is_ascii_def jcs_defs)

lemma net_scid:
  "take 24 (ascii_lower (b32encode (sha256 (utf8
     (canonicalize (JObj [(''id'', JStr ''did:webnext:example.net:{{SCID}}'')])))))) =
   ''7bqbmxce347zrn2ut2e46i7i''"
  unfolding sha256_genesis_net by (simp add: b32_defs)

lemma net_loads_genesis:
  "json_loads (json_dumps (JObj [(''id'', JStr ''did:webnext:example.net:{{SCID}}'')])) =
   Inr (JObj [(''id'', JStr ''did:webnext:example.net:{{SCID}}'')])"
proof -
  have "parse_value (Suc (Suc (Suc 0)))
      (json_dumps (JObj [(''id'', JStr ''did:webnext:example.net:{{SCID}}'')])) =
      Inr (JObj [(''id'', JStr ''did:webnext:example.net:{{SCID}}'')], [])"
    by (simp add: dumps_str_def dumps_char_def short_escape_def ord_def skip_ws_def is_ws_def
        starts_with_def cons_char_def)
  then show ?thesis
    by (rule json_loads_parse_value) (simp add: skip_ws_def)
qed

lemma net_loads_replaced:
  "json_loads (str_replace ''did:webnext:example.net:{{SCID}}''
       ''did:webnext:example.net:7bqbmxce347zrn2ut2e46i7i''
       (json_dumps (JObj [(''id'', JStr ''did:webnext:example.net:{{SCID}}'')]))) =
   Inr (JObj [(''id'', JStr ''did:webnext:example.net:7bqbmxce347zrn2ut2e46i7i'')])"
proof -
  have "parse_value (Suc (Suc (Suc 0)))
      (str_replace ''did:webnext:example.net:{{SCID}}''
         ''did:webnext:example.net:7bqbmxce347zrn2ut2e46i7i''
         (json_dumps (JObj [(''id'', JStr ''did:webnext:example.net:{{SCID}}'')]))) =
      Inr (JObj [(''id'', JStr ''did:webnext:example.net:7bqbmxce347zrn2ut2e46i7i'')], [])"
    by (simp add: str_replace_def dumps_str_def dumps_char_def short_escape_def ord_def
        skip_ws_def is_ws_def starts_with_def cons_char_def)
  then show ?thesis
    by (rule json_loads_parse_value) (simp add: skip_ws_def)
qed

lemma update_scid_version:
  "dict_get kvs ''id'' = Some (JStr doc_id) \<Longrightarrow>
   take 1 (split_str (CHR '':'') doc_id) = [''did''] \<Longrightarrow>
   4 \<le> length (split_str (CHR '':'') doc_id) \<Longrightarrow>
   scid_version (last (split_str (CHR '':'') doc_id)) = Inr n \<Longrightarrow> n \<noteq> 1 \<Longrightarrow>
   update_scid (JObj kvs) None = Inl (RuntimeError ''Only SCID version 1 is supported'')"
  unfolding update_scid_def
  by (simp add: Let_def del: canonicalize.simps json_dumps.simps)

lemma scid_version_digit:
  "c \<in> set ''234567'' \<Longrightarrow> \<exists>n. scid_version (c # s) = Inr n \<and> n \<noteq> 1"
  by (auto simp: scid_version_def py_isdigit_def is_digit_def ord_def)

text \<open>
  C5. \<open>update_scid\<close> is not idempotent. An SCID is 24 characters of lower-case base32,
  whose alphabet has the digits 2 to 7. On a document whose id ends in an SCID that
  starts with one of these digits, \<open>update_scid\<close> without \<open>scid_ver\<close> reads the digit as
  the version and raises \<open>Only SCID version 1 is supported\<close>: the second run of the
  idempotence check fails whenever the first run derived such an SCID.
\<close>

theorem update_scid_rerun_refused:
  "dict_get kvs ''id'' = Some (JStr new_id) \<and>
   take 1 (split_str (CHR '':'') new_id) = [''did''] \<and>
   4 \<le> length (split_str (CHR '':'') new_id) \<and>
   last (split_str (CHR '':'') new_id) = c # scid \<and> c \<in> set ''234567'' \<longrightarrow>
     update_scid (JObj kvs) None = Inl (RuntimeError ''Only SCID version 1 is supported'')"
  using update_scid_version [of kvs new_id] scid_version_digit [of c scid]
  by auto

text \<open>
  The SCID of the genesis document \<open>{"id": "did:webnext:example.net:{{SCID}}"}\<close> is
  \<open>7bqbmxce347zrn2ut2e46i7i\<close>. Given as text with \<open>scid_ver = 1\<close>, as
  \<open>manual_generate_did\<close> does, the document is returned with that SCID in its id; on
  the document returned, the second run raises.
\<close>

theorem update_scid_not_idempotent:
  "update_scid (JStr (json_dumps (JObj [(''id'', JStr ''did:webnext:example.net:{{SCID}}'')])))
     (Some 1) =
     Inr (''did:webnext:example.net:7bqbmxce347zrn2ut2e46i7i'',
          JObj [(''id'', JStr ''did:webnext:example.net:7bqbmxce347zrn2ut2e46i7i'')]) \<and>
   update_scid (JObj [(''id'', JStr ''did:webnext:example.net:7bqbmxce347zrn2ut2e46i7i'')]) None =
     Inl (RuntimeError ''Only SCID version 1 is supported'')"
proof -
  have sp: "split_str (CHR '':'') ''did:webnext:example.net:{{SCID}}'' =
      [''did'', ''webnext'', ''example.net'', ''{{SCID}}'']"
    by simp
  have 1: "update_scid (JStr (json_dumps (JObj [(''id'', JStr ''did:webnext:example.net:{{SCID}}'')])))
     (Some 1) =
     Inr (''did:webnext:example.net:7bqbmxce347zrn2ut2e46i7i'',
          JObj [(''id'', JStr ''did:webnext:example.net:7bqbmxce347zrn2ut2e46i7i'')])"
    unfolding update_scid_def
    by (simp add: Let_def net_loads_genesis loads_result_def dict_get_def sp PLACEHOLDER_def net_canonical
        net_canonical_ascii net_scid net_loads_replaced
        del: canonicalize.simps json_dumps.simps split_str.simps)
  have "dict_get [(''id'', JStr ''did:webnext:example.net:7bqbmxce347zrn2ut2e46i7i'')] ''id'' =
      Some (JStr ''did:webnext:example.net:7bqbmxce347zrn2ut2e46i7i'')"
    by (simp add: dict_get_def)
  moreover have "split_str (CHR '':'') ''did:webnext:example.net:7bqbmxce347zrn2ut2e46i7i'' =
      [''did'', ''webnext'', ''example.net'', ''7bqbmxce347zrn2ut2e46i7i'']"
    by simp
  ultimately have 2: "update_scid
      (JObj [(''id'', JStr ''did:webnext:example.net:7bqbmxce347zrn2ut2e46i7i'')]) None =
      Inl (RuntimeError ''Only SCID version 1 is supported'')"
    using update_scid_rerun_refused
      [of "[(''id'', JStr ''did:webnext:example.net:7bqbmxce347zrn2ut2e46i7i'')]"
          "''did:webnext:example.net:7bqbmxce347zrn2ut2e46i7i''" "CHR ''7''"
          "''bqbmxce347zrn2ut2e46i7i''"]
    by simp
  from 1 2 show ?thesis by simp
qed


end
